theory Spec2Isabelle
  imports Main "HOL-Library.Sublist"
begin

section \<open>Strings\<close>

text \<open>
  A JavaScript string is a sequence of UTF-16 code units. A code unit is modelled by its
  number, so that the character classes of the regular expressions (\<open>\s\<close>, \<open>.\<close>) keep
  the members they have beyond ASCII. \<open>js\<close> turns a literal into its code units.
\<close>

type_synonym jsstring = "nat list"

definition js :: "string \<Rightarrow> jsstring" where
  "js s = map of_char s"

text \<open>The line terminators of ECMAScript: LF, CR, LS, PS.\<close>

definition line_terminator :: "nat \<Rightarrow> bool" where
  "line_terminator c = (c = 10 \<or> c = 13 \<or> c = 8232 \<or> c = 8233)"

text \<open>
  What \<open>\s\<close> matches and what \<open>String.prototype.trim\<close> strips: the white space code
  units and the line terminators.
\<close>

definition white_space :: "nat \<Rightarrow> bool" where
  "white_space c =
     (c = 9 \<or> c = 10 \<or> c = 11 \<or> c = 12 \<or> c = 13 \<or> c = 32 \<or> c = 160 \<or> c = 5760
      \<or> (8192 \<le> c \<and> c \<le> 8202) \<or> c = 8232 \<or> c = 8233 \<or> c = 8239 \<or> c = 8287
      \<or> c = 12288 \<or> c = 65279)"

definition trim :: "jsstring \<Rightarrow> jsstring" where
  "trim s = rev (dropWhile white_space (rev (dropWhile white_space s)))"

text \<open>
  \<open>s.split(', ')\<close>: the pieces of \<open>s\<close> between the occurrences of a comma followed by
  a space, found from the left. The first argument is the piece read so far.
\<close>

fun split_comma_space :: "jsstring \<Rightarrow> jsstring \<Rightarrow> jsstring list" where
  "split_comma_space cur [] = [cur]"
| "split_comma_space cur [c] = [cur @ [c]]"
| "split_comma_space cur (c # d # s) =
     (if c = 44 \<and> d = 32 then cur # split_comma_space [] s
      else split_comma_space (cur @ [c]) (d # s))"

text \<open>\<open>contains l s\<close>: the text \<open>l\<close> occurs in \<open>s\<close>, as \<open>s.includes(l)\<close> computes it.\<close>

fun contains :: "jsstring \<Rightarrow> jsstring \<Rightarrow> bool" where
  "contains l [] = (l = [])"
| "contains l (c # s) = (prefix l (c # s) \<or> contains l s)"

section \<open>Regular expressions\<close>

text \<open>
  The fragment of the regular expression language that the triage uses. A pattern is a
  sequence of items; \<open>Star\<close>, \<open>Plus\<close> and \<open>Alt\<close> are capturing groups (a greedy
  repetition of a character class, an alternative of literals), the other items capture
  nothing.
\<close>

datatype rx =
    Lit jsstring
  | Cls "nat \<Rightarrow> bool"
  | Star "nat \<Rightarrow> bool"
  | Plus "nat \<Rightarrow> bool"
  | Alt "jsstring list"
  | Opt jsstring
  | Eos

fun first_some :: "('a \<Rightarrow> 'b option) \<Rightarrow> 'a list \<Rightarrow> 'b option" where
  "first_some f [] = None"
| "first_some f (x # xs) = (case f x of Some y \<Rightarrow> Some y | None \<Rightarrow> first_some f xs)"

text \<open>
  Backtracking match of a pattern at the start of a string; the result is the list of the
  captures of the first successful path. A greedy repetition tries the longest run first,
  then the shorter ones; an optional literal is tried first, then skipped; \<open>Eos\<close> is
  \<open>$\<close> without the \<open>m\<close> flag.
\<close>

primrec rx_match :: "rx list \<Rightarrow> jsstring \<Rightarrow> jsstring list option" where
  "rx_match [] = (\<lambda>s. Some [])"
| "rx_match (r # rs) = (\<lambda>s.
     case r of
       Lit l \<Rightarrow> (if prefix l s then rx_match rs (drop (length l) s) else None)
     | Cls P \<Rightarrow> (case s of [] \<Rightarrow> None | c # t \<Rightarrow> if P c then rx_match rs t else None)
     | Star P \<Rightarrow>
         first_some (\<lambda>k. map_option (Cons (take k s)) (rx_match rs (drop k s)))
           (rev [0..<Suc (length (takeWhile P s))])
     | Plus P \<Rightarrow>
         first_some (\<lambda>k. map_option (Cons (take k s)) (rx_match rs (drop k s)))
           (rev [1..<Suc (length (takeWhile P s))])
     | Alt ls \<Rightarrow>
         first_some (\<lambda>l. if prefix l s
                          then map_option (Cons l) (rx_match rs (drop (length l) s))
                          else None) ls
     | Opt l \<Rightarrow>
         (case (if prefix l s then rx_match rs (drop (length l) s) else None) of
            Some caps \<Rightarrow> Some caps
          | None \<Rightarrow> rx_match rs s)
     | Eos \<Rightarrow> (if s = [] then rx_match rs s else None))"

text \<open>
  \<open>regex.exec(s)\<close> on a regular expression whose \<open>lastIndex\<close> is 0, and
  \<open>s.match(regex)\<close> without the \<open>g\<close> flag: the match at the leftmost position that has
  one. Each function below builds its regular expression anew from a literal, so
  \<open>lastIndex\<close> is 0 at its only \<open>exec\<close>.
\<close>

fun rx_exec :: "rx list \<Rightarrow> jsstring \<Rightarrow> jsstring list option" where
  "rx_exec rs [] = rx_match rs []"
| "rx_exec rs (c # s) =
     (case rx_match rs (c # s) of Some caps \<Rightarrow> Some caps | None \<Rightarrow> rx_exec rs s)"

text \<open>A capture by its position; a group that did not take part reads as the empty
  string, the default of the destructuring in \<open>findPriority\<close>.\<close>

definition cap :: "jsstring list \<Rightarrow> nat \<Rightarrow> jsstring" where
  "cap caps i = (if i < length caps then caps ! i else [])"

section \<open>Reading the issue body\<close>

text \<open>
  The body of an issue in the event payload is a string or \<open>null\<close> (an issue without
  text). \<open>RegExp.prototype.exec\<close> converts its argument to a string, so \<open>null\<close> is read
  as the text \<open>null\<close>.
\<close>

datatype jsbody = BodyNull | BodyText jsstring

fun to_string :: "jsbody \<Rightarrow> jsstring" where
  "to_string BodyNull = js ''null''"
| "to_string (BodyText s) = s"

definition letter :: "nat \<Rightarrow> bool" where
  "letter c = ((97 \<le> c \<and> c \<le> 122) \<or> (65 \<le> c \<and> c \<le> 90))"

text \<open>\<open>[a-zA-Z ,]\<close>\<close>

definition plugin_char :: "nat \<Rightarrow> bool" where
  "plugin_char c = (letter c \<or> c = 32 \<or> c = 44)"

text \<open>\<open>[a-zA-Z ,-]\<close>\<close>

definition platform_char :: "nat \<Rightarrow> bool" where
  "platform_char c = (letter c \<or> c = 32 \<or> c = 44 \<or> c = 45)"

text \<open>\<open>.\<close> without the \<open>s\<close> flag\<close>

definition dot :: "nat \<Rightarrow> bool" where
  "dot c = (\<not> line_terminator c)"

text \<open>\<open>/###\sImpacted\splugin\n\n([a-zA-Z ,]*)\n\n/gm\<close>\<close>

definition plugins_regex :: "rx list" where
  "plugins_regex =
     [Lit (js ''###''), Cls white_space, Lit (js ''Impacted''), Cls white_space,
      Lit (js ''plugin\<newline>\<newline>''), Star plugin_char, Lit (js ''\<newline>\<newline>'')]"

text \<open>\<open>/###\sPlatform\s\(Simple\sand\/or Atomic\)\n\n([a-zA-Z ,-]*)\n\n/gm\<close>\<close>

definition platforms_regex :: "rx list" where
  "platforms_regex =
     [Lit (js ''###''), Cls white_space, Lit (js ''Platform''), Cls white_space,
      Lit (js ''(Simple''), Cls white_space, Lit (js ''and/or Atomic)\<newline>\<newline>''),
      Star platform_char, Lit (js ''\<newline>\<newline>'')]"

text \<open>\<open>/###\sImpact\n\n(?<impact>.*)\n\n###\sAvailable\sworkarounds\?\n\n(?<blocking>.*)\n/gm\<close>\<close>

definition priority_regex :: "rx list" where
  "priority_regex =
     [Lit (js ''###''), Cls white_space, Lit (js ''Impact\<newline>\<newline>''), Star dot,
      Lit (js ''\<newline>\<newline>###''), Cls white_space, Lit (js ''Available''),
      Cls white_space, Lit (js ''workarounds?\<newline>\<newline>''), Star dot,
      Lit (js ''\<newline>'')]"

text \<open>
  \<open>findPlugins\<close>. The group of the regular expression always takes part in a match, so
  the case of a match without a capture cannot arise; it is written out to keep the
  function total.
\<close>

definition findPlugins :: "jsbody \<Rightarrow> jsstring list" where
  "findPlugins body =
     (case rx_exec plugins_regex (to_string body) of
        Some (plugins # _) \<Rightarrow> filter (\<lambda>v. trim v \<noteq> []) (split_comma_space [] plugins)
      | _ \<Rightarrow> [])"

definition findPlatforms :: "jsbody \<Rightarrow> jsstring list" where
  "findPlatforms body =
     (case rx_exec platforms_regex (to_string body) of
        Some (platforms # _) \<Rightarrow>
          filter (\<lambda>platform. platform \<noteq> js ''Self-hosted'' \<and> trim platform \<noteq> [])
            (split_comma_space [] platforms)
      | _ \<Rightarrow> [])"

text \<open>
  \<open>findPriority\<close>. Every path through the body of the \<open>while\<close> loop returns, so the
  loop runs its body at most once, on the first match.
\<close>

definition findPriority :: "jsbody \<Rightarrow> jsstring" where
  "findPriority body =
     (case rx_exec priority_regex (to_string body) of
        Some caps \<Rightarrow>
          (let impact = cap caps 0; blocking = cap caps 1 in
           if blocking = js ''No and the platform is unusable''
           then (if impact = js ''One'' then js ''High'' else js ''BLOCKER'')
           else if blocking = js ''No but the platform is still usable''
           then js ''High''
           else if blocking = js ''Yes, difficult to implement''
           then (if impact = js ''All'' then js ''High'' else js ''Normal'')
           else if blocking \<noteq> [] \<and> blocking \<noteq> js ''_No response_''
           then (if impact = js ''All'' \<or> impact = js ''Most (> 50%)''
                 then js ''Normal'' else js ''Low'')
           else js ''TBD'')
      | None \<Rightarrow> js ''TBD'')"

section \<open>Values and errors\<close>

text \<open>
  The data of a graph query's response is parsed JSON. Numbers occur in it only where
  the triage tests a value for truthiness, so an integer stands for them.
\<close>

datatype jsval =
    JUndefined
  | JNull
  | JBool bool
  | JNum int
  | JStr jsstring
  | JArr "jsval list"
  | JObj "(jsstring \<times> jsval) list"

text \<open>
  What a run can throw: the two exceptions of the language that the triage can raise, and
  the rejection of a remote call, with its message.
\<close>

datatype err = TypeError | ReferenceError | RemoteError jsstring

definition bind_err :: "err + 'a \<Rightarrow> ('a \<Rightarrow> err + 'b) \<Rightarrow> err + 'b" where
  "bind_err r f = (case r of Inl e \<Rightarrow> Inl e | Inr x \<Rightarrow> f x)"

fun truthy :: "jsval \<Rightarrow> bool" where
  "truthy JUndefined = False"
| "truthy JNull = False"
| "truthy (JBool b) = b"
| "truthy (JNum n) = (n \<noteq> 0)"
| "truthy (JStr s) = (s \<noteq> [])"
| "truthy (JArr xs) = True"
| "truthy (JObj kvs) = True"

text \<open>
  \<open>v.k\<close> for the property names the triage reads (\<open>organization\<close>, \<open>projectV2\<close>,
  \<open>id\<close>, \<open>number\<close>, \<open>fields\<close>, \<open>nodes\<close>, \<open>name\<close>, \<open>options\<close>, \<open>node\<close>,
  \<open>projectItems\<close>): reading a property of \<open>undefined\<close> or \<open>null\<close> throws a
  \<open>TypeError\<close>; an object gives the value stored under the key or \<open>undefined\<close>; a
  boolean, a number, a string and an array have none of these properties.
\<close>

fun get_prop :: "jsval \<Rightarrow> jsstring \<Rightarrow> err + jsval" where
  "get_prop JUndefined k = Inl TypeError"
| "get_prop JNull k = Inl TypeError"
| "get_prop (JObj kvs) k = Inr (case map_of kvs k of Some v \<Rightarrow> v | None \<Rightarrow> JUndefined)"
| "get_prop (JBool b) k = Inr JUndefined"
| "get_prop (JNum n) k = Inr JUndefined"
| "get_prop (JStr s) k = Inr JUndefined"
| "get_prop (JArr xs) k = Inr JUndefined"

text \<open>\<open>v.k1.k2...\<close>\<close>

fun path :: "jsval \<Rightarrow> jsstring list \<Rightarrow> err + jsval" where
  "path v [] = Inr v"
| "path v (k # ks) = bind_err (get_prop v k) (\<lambda>w. path w ks)"

text \<open>\<open>v?.k1.k2...\<close>: the whole chain is \<open>undefined\<close> when \<open>v\<close> is \<open>undefined\<close> or
  \<open>null\<close>.\<close>

definition opt_chain :: "jsval \<Rightarrow> (jsval \<Rightarrow> err + jsval) \<Rightarrow> err + jsval" where
  "opt_chain v f = (if v = JUndefined \<or> v = JNull then Inr JUndefined else f v)"

text \<open>
  \<open>xs.find(x => x.name === n)\<close> on the elements of an array: the first element whose
  \<open>name\<close> is the string \<open>n\<close>, \<open>undefined\<close> when there is none; reading \<open>name\<close>
  throws on an element that is \<open>null\<close>.
\<close>

fun find_named :: "jsstring \<Rightarrow> jsval list \<Rightarrow> err + jsval" where
  "find_named n [] = Inr JUndefined"
| "find_named n (x # xs) =
     bind_err (get_prop x (js ''name''))
       (\<lambda>v. if v = JStr n then Inr x else find_named n xs)"

text \<open>\<open>v.find(x => x.name === n)\<close>: only an array has the method.\<close>

fun array_find_named :: "jsstring \<Rightarrow> jsval \<Rightarrow> err + jsval" where
  "array_find_named n (JArr xs) = find_named n xs"
| "array_find_named n JUndefined = Inl TypeError"
| "array_find_named n JNull = Inl TypeError"
| "array_find_named n (JBool b) = Inl TypeError"
| "array_find_named n (JNum i) = Inl TypeError"
| "array_find_named n (JStr s) = Inl TypeError"
| "array_find_named n (JObj kvs) = Inl TypeError"

section \<open>Runs and their remote calls\<close>

text \<open>
  The calls a run makes to its collaborators, in the order it makes them, with the
  arguments that matter: \<open>setFailed\<close>, the three graph queries and the mutation (with
  their variables), \<open>getLabels\<close> and \<open>addLabels\<close> (owner, repository, issue number).
  The log messages (\<open>debug\<close>) are not among them: a log message matters only through
  the expressions it evaluates, which are kept where one of them can throw.
\<close>

text \<open>
  A number that \<open>parseInt\<close> returns is a double: the integer itself up to \<open>2^53\<close>,
  beyond that the double that the implementation rounds the integer to, which is kept as
  such, with the integer it comes from.
\<close>

datatype jsnumber = Exact nat | Rounded nat

datatype event =
    SetFailed jsstring
  | GetProject jsstring jsnumber
  | GetProjectNumber jsstring nat
  | GetIssueProjectDetails jsstring
  | UpdateField jsval jsstring jsval jsval
  | GetLabels jsstring jsstring nat
  | AddLabels jsstring jsstring nat "jsstring list"

text \<open>
  What a run depends on besides the event payload. The two inputs of the action
  (\<open>getInput\<close> gives the empty string for an input that is not set). The outcome of each
  remote call: an error when the call is rejected, the data otherwise; a run makes each
  graph call at most once and \<open>getLabels\<close> twice. A successful graph call resolves to an
  object whose keys are the fields its query selects.

  \<open>global_projectNodeId\<close>: the function \<open>triageIssues\<close> reads the identifier
  \<open>projectNodeId\<close>, which neither it nor its module declares (the constant of that name
  is local to \<open>getProjectDetails\<close>). The read is resolved in the global object;
  \<open>None\<close> says that the global object has no such property, which is the case unless
  code outside this module has defined one.
\<close>

record env =
  project_automation_token :: jsstring
  project_board :: jsstring
  global_projectNodeId :: "jsval option"
  getProject_response :: "err + (jsstring \<times> jsval) list"
  getProjectNumber_response :: "err + (jsstring \<times> jsval) list"
  getIssueProjectDetails_response :: "err + (jsstring \<times> jsval) list"
  updateField_response :: "err + (jsstring \<times> jsval) list"
  getLabels_first :: "err + jsstring list"
  getLabels_second :: "err + jsstring list"
  addLabels_response :: "jsstring list \<Rightarrow> err option"

text \<open>The fields of the event payload that the triage reads. \<open>label_name\<close> is the name of
  \<open>payload.label\<close>, \<open>None\<close> when the event carries no label.\<close>

record payload =
  action :: jsstring
  issue_number :: nat
  issue_body :: jsbody
  issue_node_id :: jsstring
  label_name :: "jsstring option"
  owner_login :: jsstring
  repo_name :: jsstring

text \<open>A run: how it ends (thrown error or returned value) and the calls it made.\<close>

type_synonym 'a run = "(err + 'a) \<times> event list"

definition then_run :: "'a run \<Rightarrow> ('a \<Rightarrow> 'b run) \<Rightarrow> 'b run" where
  "then_run m f =
     (case fst m of
        Inl e \<Rightarrow> (Inl e, snd m)
      | Inr x \<Rightarrow> (fst (f x), snd m @ snd (f x)))"

text \<open>A step that makes no call.\<close>

definition local_step :: "err + 'a \<Rightarrow> 'a run" where
  "local_step r = (r, [])"

text \<open>\<open>await octokit.graphql(...)\<close>: the call is made, then its outcome is had.\<close>

definition graphql :: "event \<Rightarrow> err + (jsstring \<times> jsval) list \<Rightarrow> jsval run" where
  "graphql call response = (map_sum id JObj response, [call])"

definition getLabels :: "err + jsstring list \<Rightarrow> jsstring \<Rightarrow> jsstring \<Rightarrow> nat \<Rightarrow> jsstring list run" where
  "getLabels response owner repo number = (response, [GetLabels owner repo number])"

definition addLabels :: "env \<Rightarrow> jsstring \<Rightarrow> jsstring \<Rightarrow> nat \<Rightarrow> jsstring list \<Rightarrow> unit run" where
  "addLabels env owner repo number labels =
     ((case addLabels_response env labels of Some e \<Rightarrow> Inl e | None \<Rightarrow> Inr ()),
      [AddLabels owner repo number labels])"

section \<open>The label checks\<close>

text \<open>\<open>/^\[Pri\].*$/\<close>, anchored at the start of the label's name.\<close>

definition priority_label_regex :: "rx list" where
  "priority_label_regex = [Lit (js ''[Pri]''), Star dot, Eos]"

definition is_priority_label :: "jsstring \<Rightarrow> bool" where
  "is_priority_label l = (rx_match priority_label_regex l \<noteq> None)"

text \<open>
  \<open>hasPriorityLabels\<close>, \<open>isBug\<close>. Each fetches the labels of the issue with its own
  call of \<open>getLabels\<close>, a helper of the repository that resolves to the names of the
  labels; the outcome of that call is the first argument. \<open>isBug\<close> returns \<open>true\<close> or
  nothing, read as a boolean by its caller.
\<close>

definition hasPriorityLabels ::
  "err + jsstring list \<Rightarrow> jsstring \<Rightarrow> jsstring \<Rightarrow> nat \<Rightarrow> jsstring \<Rightarrow> jsstring option
   \<Rightarrow> jsstring list run" where
  "hasPriorityLabels response owner repo number act eventLabel =
     then_run (getLabels response owner repo number) (\<lambda>labels.
       local_step (Inr (filter is_priority_label
         (case eventLabel of
            Some n \<Rightarrow>
              if act = js ''labeled'' \<and> n \<noteq> [] \<and> is_priority_label n
              then labels @ [n] else labels
          | None \<Rightarrow> labels))))"

definition isBug ::
  "err + jsstring list \<Rightarrow> jsstring \<Rightarrow> jsstring \<Rightarrow> nat \<Rightarrow> jsstring \<Rightarrow> jsstring option
   \<Rightarrow> bool run" where
  "isBug response owner repo number act eventLabel =
     then_run (getLabels response owner repo number) (\<lambda>labels.
       local_step (Inr
         (js ''[Type] Bug'' \<in> set labels
          \<or> (case eventLabel of
                Some n \<Rightarrow> act = js ''labeled'' \<and> n \<noteq> [] \<and> js ''[Type] Bug'' = n
              | None \<Rightarrow> False))))"

section \<open>The project board\<close>

text \<open>\<open>updateProjectField\<close>: the mutation, then \<open>true\<close>.\<close>

definition updateProjectField ::
  "env \<Rightarrow> jsval \<Rightarrow> jsstring \<Rightarrow> jsval \<Rightarrow> jsval \<Rightarrow> bool run" where
  "updateProjectField env fieldId itemId projectId optionId =
     then_run (graphql (UpdateField fieldId itemId projectId optionId)
                 (updateField_response env))
       (\<lambda>projectItemDetails. local_step (Inr True))"

text \<open>
  \<open>getItemNodeId\<close>: the query, a log message that reads
  \<open>issueProjectDetails.node?.projectItems\<close>, then the constant.
\<close>

definition getItemNodeId :: "env \<Rightarrow> jsstring \<Rightarrow> jsstring run" where
  "getItemNodeId env nodeId =
     then_run (graphql (GetIssueProjectDetails nodeId) (getIssueProjectDetails_response env))
       (\<lambda>issueProjectDetails.
     then_run (local_step (bind_err (get_prop issueProjectDetails (js ''node''))
                 (\<lambda>n. opt_chain n (\<lambda>n. get_prop n (js ''projectItems'')))))
       (\<lambda>logged.
     local_step (Inr (js ''PVTI_lADOCGvWfc4AUwHEzgI4tDo''))))"

text \<open>
  The object that \<open>getProjectDetails\<close> builds; \<open>None\<close> is a property that the object
  does not have. \<open>no_project_info\<close> is \<open>{}\<close>.
\<close>

record projectInfo =
  ownerType :: "jsstring option"
  ownerName :: "jsstring option"
  projectNumber :: "jsnumber option"
  projectNodeId :: "jsval option"
  priority :: "jsval option"

definition no_project_info :: projectInfo where
  "no_project_info =
     \<lparr>ownerType = None, ownerName = None, projectNumber = None, projectNodeId = None,
      priority = None\<rparr>"

definition digit :: "nat \<Rightarrow> bool" where
  "digit c = (48 \<le> c \<and> c \<le> 57)"

definition not_slash :: "nat \<Rightarrow> bool" where
  "not_slash c = (c \<noteq> 47)"

text \<open>
  \<open>/^(?:https:\/\/)?github\.com\/(?<ownerType>orgs|users)\/(?<ownerName>[^/]+)\/projects\/(?<projectNumber>\d+)/\<close>,
  anchored at the start of the link.
\<close>

definition project_regex :: "rx list" where
  "project_regex =
     [Opt (js ''https://''), Lit (js ''github.com/''), Alt [js ''orgs'', js ''users''],
      Lit (js ''/''), Plus not_slash, Lit (js ''/projects/''), Plus digit]"

text \<open>\<open>parseInt(s, 10)\<close> on a string of decimal digits.\<close>

definition parseInt :: "jsstring \<Rightarrow> jsnumber" where
  "parseInt s =
     (let n = foldl (\<lambda>n c. 10 * n + (c - 48)) 0 s
      in if n \<le> 2 ^ 53 then Exact n else Rounded n)"

text \<open>
  \<open>getProjectDetails\<close>. A link that does not match is logged and answered with \<open>{}\<close>.
  Otherwise the project is queried; the steps after the query are the read of the
  project's node id (\<open>organization?.projectV2.id\<close>), the log message that reads
  \<open>organization.projectV2.fields\<close>, and the search of the field named \<open>Priority\<close> in
  \<open>organization?.projectV2.fields.nodes\<close>.
\<close>

definition getProjectDetails :: "env \<Rightarrow> jsstring \<Rightarrow> projectInfo run" where
  "getProjectDetails env projectBoardLink =
     (case rx_match project_regex projectBoardLink of
        None \<Rightarrow> local_step (Inr no_project_info)
      | Some matches \<Rightarrow>
          (let info = \<lparr>ownerType = Some (if cap matches 0 = js ''orgs''
                                          then js ''organization'' else js ''user''),
                       ownerName = Some (cap matches 1),
                       projectNumber = Some (parseInt (cap matches 2)),
                       projectNodeId = None, priority = None\<rparr>
           in
           then_run (graphql (GetProject (cap matches 1) (parseInt (cap matches 2)))
                       (getProject_response env))
             (\<lambda>projectDetails.
           then_run (local_step (bind_err (get_prop projectDetails (js ''organization''))
                       (\<lambda>org. opt_chain org (\<lambda>org. path org [js ''projectV2'', js ''id'']))))
             (\<lambda>nodeId.
           then_run (local_step (path projectDetails
                       [js ''organization'', js ''projectV2'', js ''fields'']))
             (\<lambda>logged.
           then_run (local_step (bind_err (get_prop projectDetails (js ''organization''))
                       (\<lambda>org. opt_chain org (\<lambda>org.
                          bind_err (path org [js ''projectV2'', js ''fields'', js ''nodes''])
                            (array_find_named (js ''Priority''))))))
             (\<lambda>priorityField.
           local_step (Inr
             ((if truthy nodeId then info\<lparr>projectNodeId := Some nodeId\<rparr> else info)
                \<lparr>priority := (if truthy priorityField then Some priorityField else None)\<rparr>))))))))"

section \<open>The triage of an issue\<close>

definition missing_token_message :: jsstring where
  "missing_token_message =
     js ''triage-issues: Input project_automation_token is required but missing. Aborting.''"

definition missing_board_message :: jsstring where
  "missing_board_message =
     js ''triage-issues: No project board link provided. Cannot triage to a board.''"

text \<open>
  The part of \<open>triageIssues\<close> that deals with the board (from the call of
  \<open>getProjectDetails\<close> to the call of \<open>updateProjectField\<close>), in the order of the
  source:
  \<^item> the details of the project;
  \<^item> the query for the issue in project 11, and \<open>isInProject.node?.projectV2.id\<close> and
    \<open>isInProject.node?.projectV2.number\<close>, read for \<open>itemId\<close> and the log;
  \<^item> the item's node id;
  \<^item> the destructuring of \<open>projectInfo.priority\<close> into its \<open>id\<close> and \<open>options\<close>, which
    throws when \<open>projectInfo\<close> has no \<open>priority\<close>;
  \<^item> the log message that reads the undeclared identifier \<open>projectNodeId\<close>, which
    throws a \<open>ReferenceError\<close> when the global object does not define it;
  \<^item> \<open>options.find(option => option.name === priorityText).id\<close>, where
    \<open>priorityText\<close> is the constant \<open>'Low'\<close>;
  \<^item> the update of the field.
\<close>

definition priorityText :: jsstring where
  "priorityText = js ''Low''"

definition triage_board :: "env \<Rightarrow> payload \<Rightarrow> bool run" where
  "triage_board env p =
     then_run (getProjectDetails env (project_board env)) (\<lambda>info.
     then_run (graphql (GetProjectNumber (issue_node_id p) 11)
                 (getProjectNumber_response env)) (\<lambda>isInProject.
     then_run (local_step (bind_err (get_prop isInProject (js ''node''))
                 (\<lambda>n. opt_chain n (\<lambda>n. path n [js ''projectV2'', js ''id''])))) (\<lambda>itemId.
     then_run (local_step (bind_err (get_prop isInProject (js ''node''))
                 (\<lambda>n. opt_chain n (\<lambda>n. path n [js ''projectV2'', js ''number''])))) (\<lambda>logged.
     then_run (getItemNodeId env (issue_node_id p)) (\<lambda>itemNodeId.
     then_run (local_step
                 (case priority info of
                    None \<Rightarrow> Inl TypeError
                  | Some field \<Rightarrow>
                      bind_err (get_prop field (js ''id'')) (\<lambda>priorityFieldId.
                      bind_err (get_prop field (js ''options'')) (\<lambda>options.
                      Inr (priorityFieldId, options))))) (\<lambda>(priorityFieldId, options).
     then_run (local_step
                 (case global_projectNodeId env of
                    None \<Rightarrow> Inl ReferenceError
                  | Some v \<Rightarrow> Inr v)) (\<lambda>globalNodeId.
     then_run (local_step (bind_err (array_find_named priorityText options)
                 (\<lambda>option. get_prop option (js ''id'')))) (\<lambda>priorityOptionId.
     updateProjectField env priorityFieldId itemNodeId globalNodeId priorityOptionId))))))))"

text \<open>
  The rest of \<open>triageIssues\<close>: the priority labels of the issue, the priority found in
  the body, whether the issue is a bug, and, for an issue that was opened or reopened, the
  labels to add.
\<close>

definition triage_labels :: "env \<Rightarrow> payload \<Rightarrow> unit run" where
  "triage_labels env p =
     then_run (hasPriorityLabels (getLabels_first env) (owner_login p) (repo_name p)
                 (issue_number p) (action p) (label_name p)) (\<lambda>priorityLabels.
     then_run (isBug (getLabels_second env) (owner_login p) (repo_name p)
                 (issue_number p) (action p) (label_name p)) (\<lambda>isBugIssue.
     if action p = js ''opened'' \<or> action p = js ''reopened''
     then
       then_run (if findPlugins (issue_body p) \<noteq> []
                 then addLabels env (owner_login p) (repo_name p) (issue_number p)
                        (map (\<lambda>plugin. js ''[Plugin] '' @ plugin) (findPlugins (issue_body p)))
                 else local_step (Inr ())) (\<lambda>u.
       then_run (if findPlatforms (issue_body p) \<noteq> []
                 then addLabels env (owner_login p) (repo_name p) (issue_number p)
                        (map (\<lambda>platform. js ''[Platform] '' @ platform)
                           (findPlatforms (issue_body p)))
                 else local_step (Inr ())) (\<lambda>u.
       if priorityLabels = [] \<and> isBugIssue
       then addLabels env (owner_login p) (repo_name p) (issue_number p)
              [js ''[Pri] '' @ findPriority (issue_body p)]
       else local_step (Inr ())))
     else local_step (Inr ())))"

text \<open>\<open>triageIssues\<close>: the two required inputs, then the board, then the labels.\<close>

definition triageIssues :: "env \<Rightarrow> payload \<Rightarrow> unit run" where
  "triageIssues env p =
     (if project_automation_token env = []
      then (Inr (), [SetFailed missing_token_message])
      else if project_board env = []
      then (Inr (), [SetFailed missing_board_message])
      else then_run (triage_board env p) (\<lambda>isUpdated. triage_labels env p))"

text \<open>The labels that a run added, and the updates of a board field that it made.\<close>

fun added_labels :: "event list \<Rightarrow> jsstring list" where
  "added_labels [] = []"
| "added_labels (AddLabels owner repo number labels # t) = labels @ added_labels t"
| "added_labels (e # t) = added_labels t"

fun field_updates :: "event list \<Rightarrow> event list" where
  "field_updates [] = []"
| "field_updates (UpdateField f i pr opt # t) = UpdateField f i pr opt # field_updates t"
| "field_updates (e # t) = field_updates t"

text \<open>The priority labels among the labels that a run added: those whose name starts
  with \<open>[Pri]\<close>.\<close>

definition added_priority_labels :: "event list \<Rightarrow> jsstring list" where
  "added_priority_labels t = filter (prefix (js ''[Pri]'')) (added_labels t)"

section \<open>The priority matrix\<close>

text \<open>
  The decision table of the priority policy, as the specification gives it: the tiers,
  the classes of the answer about workarounds, and the table, read row by row.
\<close>

datatype tier = BLOCKER | High | Normal | Low | TBD

fun tier_name :: "tier \<Rightarrow> jsstring" where
  "tier_name BLOCKER = js ''BLOCKER''"
| "tier_name High = js ''High''"
| "tier_name Normal = js ''Normal''"
| "tier_name Low = js ''Low''"
| "tier_name TBD = js ''TBD''"

datatype workaround = NoneUnusable | NoneUsable | YesDifficult | OtherAnswer | Unspecified

definition workaround_of :: "jsstring \<Rightarrow> workaround" where
  "workaround_of answer =
     (if answer = js ''No and the platform is unusable'' then NoneUnusable
      else if answer = js ''No but the platform is still usable'' then NoneUsable
      else if answer = js ''Yes, difficult to implement'' then YesDifficult
      else if answer = [] \<or> answer = js ''_No response_'' then Unspecified
      else OtherAnswer)"

fun decide :: "jsstring \<Rightarrow> workaround \<Rightarrow> tier" where
  "decide impact NoneUnusable = (if impact = js ''One'' then High else BLOCKER)"
| "decide impact NoneUsable = High"
| "decide impact YesDifficult = (if impact = js ''All'' then High else Normal)"
| "decide impact OtherAnswer =
     (if impact = js ''All'' \<or> impact = js ''Most (> 50%)'' then Normal else Low)"
| "decide impact Unspecified = TBD"

text \<open>
  The two answers that \<open>findPriority\<close> reads from the body: the captures of the first
  match of its regular expression, if there is a match.
\<close>

definition priority_indicators :: "jsbody \<Rightarrow> (jsstring \<times> jsstring) option" where
  "priority_indicators body =
     map_option (\<lambda>caps. (cap caps 0, cap caps 1)) (rx_exec priority_regex (to_string body))"

text \<open>The entries of a list written one after the other, a comma and a space between
  two of them.\<close>

fun join_comma_space :: "jsstring list \<Rightarrow> jsstring" where
  "join_comma_space [] = []"
| "join_comma_space [e] = e"
| "join_comma_space (e # f # es) = e @ js '', '' @ join_comma_space (f # es)"

text \<open>
  The captured list of platforms, if the body has a match of the pattern of
  \<open>findPlatforms\<close>.
\<close>

definition platform_section :: "jsbody \<Rightarrow> jsstring option" where
  "platform_section body =
     map_option (\<lambda>caps. cap caps 0) (rx_exec platforms_regex (to_string body))"

section \<open>Section markers\<close>

text \<open>
  A section marker is a header of the issue template: its words, each separated from the
  next by one white space code unit. \<open>header_at\<close> says that a text starts with the
  marker, \<open>has_header\<close> that the marker occurs in it.
\<close>

fun header_at :: "jsstring list \<Rightarrow> jsstring \<Rightarrow> bool" where
  "header_at [] s = True"
| "header_at [w] s = prefix w s"
| "header_at (w # v # ws) s =
     (prefix w s \<and>
      (case drop (length w) s of
         [] \<Rightarrow> False
       | c # t \<Rightarrow> white_space c \<and> header_at (v # ws) t))"

fun has_header :: "jsstring list \<Rightarrow> jsstring \<Rightarrow> bool" where
  "has_header ws [] = header_at ws []"
| "has_header ws (c # s) = (header_at ws (c # s) \<or> has_header ws s)"

text \<open>
  The four headers that the parsers look for, each with the end of its line and the empty
  line after it: \<open>### Impacted plugin\<close>, \<open>### Platform (Simple and/or Atomic)\<close>,
  \<open>### Impact\<close> and \<open>### Available workarounds?\<close>.
\<close>

definition plugins_marker :: "jsstring list" where
  "plugins_marker = [js ''###'', js ''Impacted'', js ''plugin\<newline>\<newline>'']"

definition platforms_marker :: "jsstring list" where
  "platforms_marker =
     [js ''###'', js ''Platform'', js ''(Simple'', js ''and/or Atomic)\<newline>\<newline>'']"

definition impact_marker :: "jsstring list" where
  "impact_marker = [js ''###'', js ''Impact\<newline>\<newline>'']"

definition workarounds_marker :: "jsstring list" where
  "workarounds_marker = [js ''###'', js ''Available'', js ''workarounds?\<newline>\<newline>'']"

text \<open>The pattern that matches a marker: its words, \<open>\s\<close> between them.\<close>

fun header_rx :: "jsstring list \<Rightarrow> rx list" where
  "header_rx [] = []"
| "header_rx [w] = [Lit w]"
| "header_rx (w # v # ws) = Lit w # Cls white_space # header_rx (v # ws)"

section \<open>An example run\<close>

text \<open>
  A board with a text field and the single-select field \<open>Priority\<close>, whose options are
  the five tiers; an issue, opened with the answers of the template, that is in project 11;
  inputs that are set. The parameters of the example are the binding of \<open>projectNodeId\<close>
  in the global object, the \<open>Priority\<close> field of the board and the labels of the issue.
\<close>

definition example_priority_field :: jsval where
  "example_priority_field =
     JObj [(js ''id'', JStr (js ''F1'')), (js ''name'', JStr (js ''Priority'')),
           (js ''options'', JArr
              [JObj [(js ''id'', JStr (js ''o1'')), (js ''name'', JStr (js ''BLOCKER''))],
               JObj [(js ''id'', JStr (js ''o2'')), (js ''name'', JStr (js ''High''))],
               JObj [(js ''id'', JStr (js ''o3'')), (js ''name'', JStr (js ''Normal''))],
               JObj [(js ''id'', JStr (js ''o4'')), (js ''name'', JStr (js ''Low''))],
               JObj [(js ''id'', JStr (js ''o5'')), (js ''name'', JStr (js ''TBD''))]])]"

definition example_board :: "jsval \<Rightarrow> (jsstring \<times> jsval) list" where
  "example_board field =
     [(js ''organization'', JObj [(js ''projectV2'', JObj
        [(js ''id'', JStr (js ''PVT_1'')),
         (js ''fields'', JObj [(js ''nodes'', JArr
            [JObj [(js ''id'', JStr (js ''F0'')), (js ''name'', JStr (js ''Title''))],
             field])])])])]"

definition example_env :: "jsval option \<Rightarrow> jsval \<Rightarrow> jsstring list \<Rightarrow> env" where
  "example_env global field labels =
     \<lparr>project_automation_token = js ''token'',
      project_board = js ''https://github.com/orgs/acme/projects/11/'',
      global_projectNodeId = global,
      getProject_response = Inr (example_board field),
      getProjectNumber_response =
        Inr [(js ''node'', JObj [(js ''projectV2'',
               JObj [(js ''id'', JStr (js ''PVT_1'')), (js ''number'', JNum 11)])])],
      getIssueProjectDetails_response =
        Inr [(js ''node'', JObj [(js ''projectItems'', JObj [(js ''nodes'', JArr [])])])],
      updateField_response = Inr [(js ''set_status'', JNull)],
      getLabels_first = Inr labels,
      getLabels_second = Inr labels,
      addLabels_response = (\<lambda>labels. None)\<rparr>"

text \<open>A \<open>Priority\<close> field that has no option named \<open>Low\<close>.\<close>

definition example_field_without_low :: jsval where
  "example_field_without_low =
     JObj [(js ''id'', JStr (js ''F1'')), (js ''name'', JStr (js ''Priority'')),
           (js ''options'', JArr
              [JObj [(js ''id'', JStr (js ''o1'')), (js ''name'', JStr (js ''Urgent''))],
               JObj [(js ''id'', JStr (js ''o2'')), (js ''name'', JStr (js ''Later''))]])]"

definition example_issue :: payload where
  "example_issue =
     \<lparr>action = js ''opened'', issue_number = 7,
      issue_body = BodyText (js ''### Impacted plugin\<newline>\<newline>Alpha, Beta\<newline>\<newline>### Impact\<newline>\<newline>All\<newline>\<newline>### Available workarounds?\<newline>\<newline>No and the platform is unusable\<newline>''),
      issue_node_id = js ''I_1'', label_name = None,
      owner_login = js ''acme'', repo_name = js ''widgets''\<rparr>"

section \<open>Matching: how a pattern runs\<close>

lemma first_some_head: "\<forall>y\<in>set xs. f y = None \<Longrightarrow> first_some f (x # xs) = f x"
  by (induction xs) (auto split: option.splits)

lemma first_some_SomeD: "first_some f xs = Some y \<Longrightarrow> \<exists>x\<in>set xs. f x = Some y"
  by (induction xs) (auto split: option.splits)

lemma rx_match_Lit: "rx_match (Lit l # rs) s = (if prefix l s then rx_match rs (drop (length l) s) else None)"
  by simp

lemma rx_match_Lit_append: "rx_match (Lit l # rs) (l @ s) = rx_match rs s"
  by simp

lemma rx_match_Cls: "rx_match (Cls P # rs) (c # s) = (if P c then rx_match rs s else None)"
  by simp

lemma rx_match_Cls_Nil: "rx_match (Cls P # rs) [] = None"
  by simp

lemma rx_match_Eos: "rx_match (Eos # rs) s = (if s = [] then rx_match rs [] else None)"
  by simp

lemma rx_match_Opt: "rx_match (Opt l # rs) s =
  (case (if prefix l s then rx_match rs (drop (length l) s) else None) of
            Some caps \<Rightarrow> Some caps | None \<Rightarrow> rx_match rs s)"
  by simp

lemma take_length_takeWhile: "take (length (takeWhile P s)) s = takeWhile P s"
  by (induction s) auto

lemma drop_length_takeWhile: "drop (length (takeWhile P s)) s = dropWhile P s"
  by (induction s) auto

lemma drop_in_takeWhile:
  "k < length (takeWhile P s) \<Longrightarrow> \<exists>c t. drop k s = c # t \<and> P c"
proof (induction s arbitrary: k)
  case Nil then show ?case by simp
next
  case (Cons a s)
  then show ?case by (cases k) (auto split: if_splits)
qed

lemma rx_match_Star_greedy:
  assumes "\<And>k. k < length (takeWhile P s) \<Longrightarrow> rx_match rs (drop k s) = None"
  shows "rx_match (Star P # rs) s =
         map_option (Cons (takeWhile P s)) (rx_match rs (dropWhile P s))"
proof -
  let ?n = "length (takeWhile P s)"
  let ?f = "\<lambda>k. map_option (Cons (take k s)) (rx_match rs (drop k s))"
  have "rev [0..<Suc ?n] = ?n # rev [0..<?n]" by simp
  moreover have "\<forall>k\<in>set (rev [0..<?n]). ?f k = None" using assms by simp
  ultimately have "first_some ?f (rev [0..<Suc ?n]) = ?f ?n"
    using first_some_head[of "rev [0..<?n]" ?f ?n] by simp
  then show ?thesis by (simp add: take_length_takeWhile drop_length_takeWhile)
qed

lemma rx_match_Plus_greedy:
  assumes "\<And>k. k < length (takeWhile P s) \<Longrightarrow> rx_match rs (drop k s) = None"
  shows "rx_match (Plus P # rs) s =
         (if takeWhile P s = [] then None
          else map_option (Cons (takeWhile P s)) (rx_match rs (dropWhile P s)))"
proof (cases "takeWhile P s = []")
  case True then show ?thesis by simp
next
  case False
  let ?n = "length (takeWhile P s)"
  let ?f = "\<lambda>k. map_option (Cons (take k s)) (rx_match rs (drop k s))"
  from False have n: "0 < ?n" by simp
  then have "[1..<Suc ?n] = [1..<?n] @ [?n]" by (simp add: Suc_leI)
  then have "rev [1..<Suc ?n] = ?n # rev [1..<?n]" by simp
  moreover have "\<forall>k\<in>set (rev [1..<?n]). ?f k = None" using assms by simp
  ultimately have "first_some ?f (rev [1..<Suc ?n]) = ?f ?n"
    using first_some_head[of "rev [1..<?n]" ?f ?n] by simp
  with False show ?thesis by (simp add: take_length_takeWhile drop_length_takeWhile)
qed

lemma rx_match_Star_Lit:
  assumes "\<not> P c"
  shows "rx_match (Star P # Lit (c # l) # rs) s =
         map_option (Cons (takeWhile P s)) (rx_match (Lit (c # l) # rs) (dropWhile P s))"
proof (rule rx_match_Star_greedy)
  fix k assume "k < length (takeWhile P s)"
  then obtain d t where "drop k s = d # t" "P d" using drop_in_takeWhile by blast
  with assms show "rx_match (Lit (c # l) # rs) (drop k s) = None" by auto
qed

lemma rx_match_Plus_Lit:
  assumes "\<not> P c"
  shows "rx_match (Plus P # Lit (c # l) # rs) s =
         (if takeWhile P s = [] then None
          else map_option (Cons (takeWhile P s)) (rx_match (Lit (c # l) # rs) (dropWhile P s)))"
proof (rule rx_match_Plus_greedy)
  fix k assume "k < length (takeWhile P s)"
  then obtain d t where "drop k s = d # t" "P d" using drop_in_takeWhile by blast
  with assms show "rx_match (Lit (c # l) # rs) (drop k s) = None" by auto
qed

lemma rx_match_Star_Eos:
  "rx_match (Star P # Eos # rs) s =
         map_option (Cons (takeWhile P s)) (rx_match (Eos # rs) (dropWhile P s))"
proof (rule rx_match_Star_greedy)
  fix k assume "k < length (takeWhile P s)"
  then obtain d t where "drop k s = d # t" "P d" using drop_in_takeWhile by blast
  then show "rx_match (Eos # rs) (drop k s) = None" by auto
qed

lemma rx_match_Plus_last:
  "rx_match [Plus P] s = (if takeWhile P s = [] then None else Some [takeWhile P s])"
proof (cases "takeWhile P s = []")
  case True then show ?thesis by simp
next
  case False
  let ?n = "length (takeWhile P s)"
  from False have n: "0 < ?n" by simp
  then have "[1..<Suc ?n] = [1..<?n] @ [?n]" by (simp add: Suc_leI)
  then have "rev [1..<Suc ?n] = ?n # rev [1..<?n]" by simp
  with False show ?thesis by (simp add: take_length_takeWhile)
qed

section \<open>Matching: what a match needs in the text\<close>

lemma contains_iff: "contains l s \<longleftrightarrow> (\<exists>a b. s = a @ l @ b)"
proof (induction s)
  case Nil then show ?case by auto
next
  case (Cons c s)
  show ?case
  proof
    assume "contains l (c # s)"
    then consider "prefix l (c # s)" | "contains l s" by auto
    then show "\<exists>a b. c # s = a @ l @ b"
    proof cases
      case 1 then obtain b where "c # s = l @ b" by (auto simp: prefix_def)
      then have "c # s = [] @ l @ b" by simp
      then show ?thesis by blast
    next
      case 2 with Cons obtain a b where "s = a @ l @ b" by blast
      then have "c # s = (c # a) @ l @ b" by simp
      then show ?thesis by blast
    qed
  next
    assume "\<exists>a b. c # s = a @ l @ b"
    then obtain a b where ab: "c # s = a @ l @ b" by blast
    show "contains l (c # s)"
    proof (cases a)
      case Nil
      with ab have "prefix l (c # s)" unfolding prefix_def by auto
      then show ?thesis by simp
    next
      case (Cons x a') with ab have "s = a' @ l @ b" by simp
      with Cons.IH show ?thesis by auto
    qed
  qed
qed

lemma contains_prefix: "prefix l s \<Longrightarrow> contains l s"
  by (cases s) auto

lemma contains_drop: "contains l (drop k s) \<Longrightarrow> contains l s"
proof -
  assume "contains l (drop k s)"
  then obtain a b where "drop k s = a @ l @ b" by (auto simp: contains_iff)
  then have "s = (take k s @ a) @ l @ b" by (metis append_take_drop_id append_assoc)
  then show ?thesis unfolding contains_iff by blast
qed

lemma contains_Cons: "contains l s \<Longrightarrow> contains l (c # s)"
  by simp

lemma contains_left: "contains (a @ b) s \<Longrightarrow> contains a s"
  unfolding contains_iff by (metis append_assoc)

lemma rx_match_contains:
  "rx_match rs s = Some caps \<Longrightarrow> Lit l \<in> set rs \<Longrightarrow> contains l s"
proof (induction rs arbitrary: s caps)
  case Nil then show ?case by simp
next
  case (Cons r rs)
  show ?case
  proof (cases r)
    case (Lit l')
    with Cons.prems have p: "prefix l' s" and m: "rx_match rs (drop (length l') s) = Some caps"
      by (auto split: if_splits)
    show ?thesis
    proof (cases "l = l'")
      case True with p show ?thesis by (simp add: contains_prefix)
    next
      case False
      with Cons.prems Lit have "Lit l \<in> set rs" by auto
      from Cons.IH[OF m this] show ?thesis by (rule contains_drop)
    qed
  next
    case (Cls P)
    with Cons.prems obtain c t where "s = c # t" "rx_match rs t = Some caps" "Lit l \<in> set rs"
      by (auto split: list.splits if_splits)
    with Cons.IH show ?thesis by auto
  next
    case (Star P)
    with Cons.prems obtain k caps' where "rx_match rs (drop k s) = Some caps'" "Lit l \<in> set rs"
      by (auto simp del: upt_Suc dest!: first_some_SomeD)
    with Cons.IH show ?thesis by (blast intro: contains_drop)
  next
    case (Plus P)
    with Cons.prems obtain k caps' where "rx_match rs (drop k s) = Some caps'" "Lit l \<in> set rs"
      by (auto simp del: upt_Suc dest!: first_some_SomeD)
    with Cons.IH show ?thesis by (blast intro: contains_drop)
  next
    case (Alt ls)
    with Cons.prems obtain k caps' where "rx_match rs (drop k s) = Some caps'" "Lit l \<in> set rs"
      by (auto dest!: first_some_SomeD split: if_splits)
    with Cons.IH show ?thesis by (blast intro: contains_drop)
  next
    case (Opt l')
    with Cons.prems obtain k where "rx_match rs (drop k s) = Some caps" "Lit l \<in> set rs"
      by (auto split: if_splits option.splits intro: that[of 0])
    with Cons.IH show ?thesis by (blast intro: contains_drop)
  next
    case Eos
    with Cons.prems have "rx_match rs s = Some caps" "Lit l \<in> set rs"
      by (auto split: if_splits)
    with Cons.IH show ?thesis by blast
  qed
qed

lemma rx_exec_contains:
  "rx_exec rs s = Some caps \<Longrightarrow> Lit l \<in> set rs \<Longrightarrow> contains l s"
proof (induction s)
  case Nil then show ?case by (auto dest: rx_match_contains)
next
  case (Cons c s)
  show ?case
  proof (cases "rx_match rs (c # s)")
    case None with Cons show ?thesis by auto
  next
    case (Some a) with Cons.prems show ?thesis by (auto dest: rx_match_contains)
  qed
qed

lemma rx_exec_absent:
  "Lit l \<in> set rs \<Longrightarrow> \<not> contains l s \<Longrightarrow> rx_exec rs s = None"
  using rx_exec_contains by (cases "rx_exec rs s") blast+

lemma rx_exec_match: "rx_match rs s = Some caps \<Longrightarrow> rx_exec rs s = Some caps"
  by (cases s) auto

lemma rx_exec_skip:
  "(\<And>i. i < length pre \<Longrightarrow> rx_match rs (drop i pre @ s) = None) \<Longrightarrow>
   rx_exec rs (pre @ s) = rx_exec rs s"
proof (induction pre)
  case Nil then show ?case by simp
next
  case (Cons c pre)
  from Cons.prems[of 0] have "rx_match rs (c # pre @ s) = None" by simp
  moreover have "rx_exec rs (pre @ s) = rx_exec rs s"
  proof (rule Cons.IH)
    fix i assume "i < length pre"
    then show "rx_match rs (drop i pre @ s) = None" using Cons.prems[of "Suc i"] by simp
  qed
  ultimately show ?case by simp
qed

lemma header_no_early_match:
  assumes ne: "pre \<noteq> []" and nc: "\<not> contains word pre" and nh: "35 \<notin> set word"
  shows "rx_match (Lit (js ''###'') # Cls white_space # Lit word # rs)
           (pre @ js ''###'' @ w # word @ tail) = None"
proof (rule ccontr)
  assume "rx_match (Lit (js ''###'') # Cls white_space # Lit word # rs)
           (pre @ js ''###'' @ w # word @ tail) \<noteq> None"
  then obtain c t where eq: "pre @ 35 # 35 # 35 # w # word @ tail = 35 # 35 # 35 # c # word @ t"
      and wc: "white_space c"
    by (auto simp: js_def prefix_def split: if_splits list.splits)
  have n35: "\<not> white_space 35" by (simp add: white_space_def)
  show False
  proof (cases pre)
    case Nil with ne show ?thesis by simp
  next
    case (Cons p1 q1)
    show ?thesis
    proof (cases q1)
      case Nil with Cons eq wc n35 show ?thesis by auto
    next
      case (Cons p2 q2)
      note c2 = Cons
      show ?thesis
      proof (cases q2)
        case Nil with c2 \<open>pre = p1 # q1\<close> eq wc n35 show ?thesis by auto
      next
        case (Cons p3 q3)
        note c3 = Cons
        show ?thesis
        proof (cases q3)
          case Nil with c3 c2 \<open>pre = p1 # q1\<close> eq wc n35 show ?thesis by auto
        next
          case (Cons p4 us)
          with c3 c2 \<open>pre = p1 # q1\<close> eq
          have pre: "pre = [p1, p2, p3, p4] @ us" and e: "us @ (35 # 35 # 35 # w # word @ tail) = word @ t"
            by auto
          from e obtain vs where
            "us = word @ vs \<and> vs @ (35 # 35 # 35 # w # word @ tail) = t
             \<or> us @ vs = word \<and> 35 # 35 # 35 # w # word @ tail = vs @ t"
            unfolding append_eq_append_conv2 by blast
          then consider ws where "us = word @ ws"
            | "us @ vs = word" "vs \<noteq> []" "35 # 35 # 35 # w # word @ tail = vs @ t"
            by (cases "vs = []") auto
          then show ?thesis
          proof cases
            case 1 with pre nc show ?thesis unfolding contains_iff by blast
          next
            case 2
            then have "hd vs = 35" by (cases vs) auto
            with 2 have "35 \<in> set word" by (metis Un_iff hd_in_set set_append)
            with nh show ?thesis by simp
          qed
        qed
      qed
    qed
  qed
qed

lemma rx_exec_header:
  assumes nc: "\<not> contains word pre" and nh: "35 \<notin> set word"
  shows "rx_exec (Lit (js ''###'') # Cls white_space # Lit word # rs)
           (pre @ js ''###'' @ w # word @ tail) =
         rx_exec (Lit (js ''###'') # Cls white_space # Lit word # rs)
           (js ''###'' @ w # word @ tail)"
proof (rule rx_exec_skip)
  fix i assume i: "i < length pre"
  then have "drop i pre \<noteq> []" by simp
  moreover from nc have "\<not> contains word (drop i pre)" using contains_drop by blast
  ultimately show "rx_match (Lit (js ''###'') # Cls white_space # Lit word # rs)
           (drop i pre @ js ''###'' @ w # word @ tail) = None"
    using nh by (rule header_no_early_match)
qed

section \<open>The three patterns on a body written from the template\<close>

lemma rx_match_Nil: "rx_match [] s = Some []" by simp

lemmas rx_steps = rx_match_Nil rx_match_Lit_append rx_match_Cls rx_match_Cls_Nil rx_match_Eos

lemma takeWhile_stop: "\<forall>c\<in>set xs. P c \<Longrightarrow> \<not> P d \<Longrightarrow> takeWhile P (xs @ d # t) = xs"
  by (induction xs) auto

lemma dropWhile_stop: "\<forall>c\<in>set xs. P c \<Longrightarrow> \<not> P d \<Longrightarrow> dropWhile P (xs @ d # t) = d # t"
  by (induction xs) auto

lemma js_append: "js (a @ b) = js a @ js b" by (simp add: js_def)

lemma nl2: "js ''\<newline>\<newline>'' = [10, 10]" by (simp add: js_def)
lemma nl1: "js ''\<newline>'' = [10]" by (simp add: js_def)

lemma plugins_regex_template:
  assumes ws: "white_space w1" "white_space w2"
    and cs: "\<forall>c\<in>set list. plugin_char c"
    and nc: "\<not> contains (js ''Impacted'') pre"
  shows "rx_exec plugins_regex
           (pre @ js ''###'' @ w1 # js ''Impacted'' @ w2 # js ''plugin\<newline>\<newline>'' @ list
              @ js ''\<newline>\<newline>'' @ rest) = Some [list]"
proof -
  have h: "35 \<notin> set (js ''Impacted'')" by (simp add: js_def)
  have p: "\<not> plugin_char 10" by (simp add: plugin_char_def letter_def)
  have "rx_match plugins_regex
          (js ''###'' @ w1 # js ''Impacted'' @ w2 # js ''plugin\<newline>\<newline>'' @ list
              @ js ''\<newline>\<newline>'' @ rest) = Some [list]"
    unfolding plugins_regex_def nl2
    using ws cs p
    by (simp del: rx_match.simps add: rx_steps rx_match_Star_Lit takeWhile_stop dropWhile_stop rx_match_Lit)
  then show ?thesis
    unfolding plugins_regex_def using rx_exec_header[OF nc h] rx_exec_match by simp
qed

lemma platforms_regex_template:
  assumes ws: "white_space w1" "white_space w2" "white_space w3"
    and cs: "\<forall>c\<in>set list. platform_char c"
    and nc: "\<not> contains (js ''Platform'') pre"
  shows "rx_exec platforms_regex
           (pre @ js ''###'' @ w1 # js ''Platform'' @ w2 # js ''(Simple'' @ w3 #
              js ''and/or Atomic)\<newline>\<newline>'' @ list @ js ''\<newline>\<newline>'' @ rest) = Some [list]"
proof -
  have h: "35 \<notin> set (js ''Platform'')" by (simp add: js_def)
  have p: "\<not> platform_char 10" by (simp add: platform_char_def letter_def)
  have "rx_match platforms_regex
          (js ''###'' @ w1 # js ''Platform'' @ w2 # js ''(Simple'' @ w3 #
              js ''and/or Atomic)\<newline>\<newline>'' @ list @ js ''\<newline>\<newline>'' @ rest) = Some [list]"
    unfolding platforms_regex_def nl2
    using ws cs p
    by (simp del: rx_match.simps add: rx_steps rx_match_Star_Lit takeWhile_stop dropWhile_stop rx_match_Lit)
  then show ?thesis
    unfolding platforms_regex_def using rx_exec_header[OF nc h] rx_exec_match by simp
qed

lemma priority_regex_template:
  assumes ws: "white_space w1" "white_space w2" "white_space w3"
    and ci: "\<forall>c\<in>set impact. \<not> line_terminator c"
    and cb: "\<forall>c\<in>set blocking. \<not> line_terminator c"
    and nc: "\<not> contains (js ''Impact\<newline>\<newline>'') pre"
  shows "rx_exec priority_regex
           (pre @ js ''###'' @ w1 # js ''Impact\<newline>\<newline>'' @ impact @ js ''\<newline>\<newline>###'' @ w2 #
              js ''Available'' @ w3 # js ''workarounds?\<newline>\<newline>'' @ blocking @ js ''\<newline>'' @ rest)
         = Some [impact, blocking]"
proof -
  have h: "35 \<notin> set (js ''Impact\<newline>\<newline>'')" by (simp add: js_def)
  have p: "\<not> dot 10" by (simp add: dot_def line_terminator_def)
  have l1: "js ''\<newline>\<newline>###'' = 10 # js ''\<newline>###''" by (simp add: js_def)
  have ci': "\<forall>c\<in>set impact. dot c" and cb': "\<forall>c\<in>set blocking. dot c"
    using ci cb by (simp_all add: dot_def)
  have "rx_match priority_regex
          (js ''###'' @ w1 # js ''Impact\<newline>\<newline>'' @ impact @ (10 # js ''\<newline>###'') @ w2 #
              js ''Available'' @ w3 # js ''workarounds?\<newline>\<newline>'' @ blocking @ [10] @ rest)
         = Some [impact, blocking]"
    unfolding priority_regex_def nl1 l1
    using ws ci' cb' p
    by (simp del: rx_match.simps add: rx_steps rx_match_Star_Lit takeWhile_stop dropWhile_stop rx_match_Lit)
  then show ?thesis
    unfolding priority_regex_def nl1 l1 using rx_exec_header[OF nc h] rx_exec_match by simp
qed

section \<open>Markers and matches\<close>

lemma header_rx_match:
  "rx_match (header_rx ws @ rs) s = Some caps \<Longrightarrow> header_at ws s"
proof (induction ws arbitrary: s rule: header_rx.induct)
  case 1 then show ?case by simp
next
  case (2 w) then show ?case by (simp split: if_splits)
next
  case (3 w v ws)
  then show ?case by (auto split: if_splits list.splits)
qed

lemma rx_match_suffix:
  "rx_match (ps @ rs) s = Some caps \<Longrightarrow> \<exists>t caps'. suffix t s \<and> rx_match rs t = Some caps'"
proof (induction ps arbitrary: s caps)
  case Nil then show ?case by auto
next
  case (Cons p ps)
  have step: "\<exists>t caps'. suffix t s \<and> rx_match rs t = Some caps'"
    if "rx_match (ps @ rs) (drop k s) = Some c" for k c
  proof -
    from Cons.IH[OF that] obtain t caps' where "suffix t (drop k s)" "rx_match rs t = Some caps'"
      by blast
    then show ?thesis using suffix_drop suffix_order.trans by blast
  qed
  show ?case
  proof (cases p)
    case (Lit l)
    with Cons.prems have "rx_match (ps @ rs) (drop (length l) s) = Some caps"
      by (auto split: if_splits)
    then show ?thesis by (rule step)
  next
    case (Cls P)
    with Cons.prems obtain c t where "s = c # t" "rx_match (ps @ rs) t = Some caps"
      by (auto split: list.splits if_splits)
    then have "rx_match (ps @ rs) (drop 1 s) = Some caps" by simp
    then show ?thesis by (rule step)
  next
    case (Star P)
    with Cons.prems obtain k c where "rx_match (ps @ rs) (drop k s) = Some c"
      by (auto simp del: upt_Suc dest!: first_some_SomeD)
    then show ?thesis by (rule step)
  next
    case (Plus P)
    with Cons.prems obtain k c where "rx_match (ps @ rs) (drop k s) = Some c"
      by (auto simp del: upt_Suc dest!: first_some_SomeD)
    then show ?thesis by (rule step)
  next
    case (Alt ls)
    with Cons.prems obtain k c where "rx_match (ps @ rs) (drop k s) = Some c"
      by (auto dest!: first_some_SomeD split: if_splits)
    then show ?thesis by (rule step)
  next
    case (Opt l)
    with Cons.prems obtain k where "rx_match (ps @ rs) (drop k s) = Some caps"
      by (auto split: if_splits option.splits intro: that[of 0])
    then show ?thesis by (rule step)
  next
    case Eos
    with Cons.prems have "rx_match (ps @ rs) (drop 0 s) = Some caps"
      by (auto split: if_splits)
    then show ?thesis by (rule step)
  qed
qed

lemma rx_exec_suffix:
  "rx_exec rs s = Some caps \<Longrightarrow> \<exists>t. suffix t s \<and> rx_match rs t = Some caps"
proof (induction s)
  case Nil then show ?case by auto
next
  case (Cons c s)
  show ?case
  proof (cases "rx_match rs (c # s)")
    case None
    with Cons obtain t where "suffix t s" "rx_match rs t = Some caps" by auto
    then show ?thesis by (auto simp: suffix_Cons)
  next
    case (Some a)
    with Cons.prems show ?thesis by auto
  qed
qed

lemma has_header_suffix: "suffix t s \<Longrightarrow> header_at ws t \<Longrightarrow> has_header ws s"
proof (induction s)
  case Nil then show ?case by simp
next
  case (Cons c s) then show ?case by (auto simp: suffix_Cons)
qed

lemma rx_exec_header_rx:
  "rx_exec (header_rx ws @ rs) s = Some caps \<Longrightarrow> has_header ws s"
  by (blast dest: rx_exec_suffix header_rx_match intro: has_header_suffix)

lemma rx_exec_inner_header:
  assumes "rx_exec (ps @ Lit (a @ w) # Cls white_space # header_rx (v # ws) @ rs) s = Some caps"
  shows "has_header (w # v # ws) s"
proof -
  from assms obtain t where t: "suffix t s"
      "rx_match (ps @ Lit (a @ w) # Cls white_space # header_rx (v # ws) @ rs) t = Some caps"
    by (blast dest: rx_exec_suffix)
  from rx_match_suffix[OF t(2)] obtain u c where u: "suffix u t"
      "rx_match (Lit (a @ w) # Cls white_space # header_rx (v # ws) @ rs) u = Some c"
    by blast
  from u(2) have p: "prefix (a @ w) u"
      and m: "rx_match (Cls white_space # header_rx (v # ws) @ rs) (drop (length (a @ w)) u) = Some c"
    by (auto split: if_splits)
  from p obtain z where z: "u = a @ w @ z" by (auto simp: prefix_def)
  with m have "rx_match (header_rx (w # v # ws) @ rs) (w @ z) = Some c" by simp
  then have "header_at (w # v # ws) (w @ z)" by (rule header_rx_match)
  moreover have "suffix (w @ z) s"
    using z u(1) t(1) by (metis suffix_order.trans suffixI)
  ultimately show ?thesis by (rule has_header_suffix[rotated])
qed

lemma plugins_regex_marker:
  "plugins_regex = header_rx plugins_marker @ [Star plugin_char, Lit (js ''\<newline>\<newline>'')]"
  by (simp add: plugins_regex_def plugins_marker_def)

lemma platforms_regex_marker:
  "platforms_regex = header_rx platforms_marker @ [Star platform_char, Lit (js ''\<newline>\<newline>'')]"
  by (simp add: platforms_regex_def platforms_marker_def)

lemma priority_regex_impact:
  "priority_regex = header_rx impact_marker @
     [Star dot, Lit (js ''\<newline>\<newline>###''), Cls white_space, Lit (js ''Available''),
      Cls white_space, Lit (js ''workarounds?\<newline>\<newline>''), Star dot, Lit (js ''\<newline>'')]"
  by (simp add: priority_regex_def impact_marker_def)

lemma priority_regex_workarounds:
  "priority_regex =
     [Lit (js ''###''), Cls white_space, Lit (js ''Impact\<newline>\<newline>''), Star dot] @
     Lit (js ''\<newline>\<newline>'' @ js ''###'') # Cls white_space #
     header_rx [js ''Available'', js ''workarounds?\<newline>\<newline>''] @ [Star dot, Lit (js ''\<newline>'')]"
  by (simp add: priority_regex_def js_def)

section \<open>Splitting a list of values\<close>

lemma header_at_shorter: "header_at (ws @ [w @ x]) s \<Longrightarrow> header_at (ws @ [w]) s"
proof (induction ws arbitrary: s)
  case Nil then show ?case by (auto simp: prefix_def)
next
  case (Cons v ws)
  show ?case
  proof (cases ws)
    case Nil
    with Cons.prems show ?thesis by (auto simp: prefix_def split: list.splits)
  next
    case (Cons u us)
    with Cons.prems Cons.IH show ?thesis by (auto split: list.splits)
  qed
qed

lemma has_header_shorter: "has_header (ws @ [w @ x]) s \<Longrightarrow> has_header (ws @ [w]) s"
  by (induction s) (auto dest: header_at_shorter)

lemma split_without_separator:
  "\<not> contains [44, 32] e \<Longrightarrow> split_comma_space cur e = [cur @ e]"
proof (induction cur e rule: split_comma_space.induct)
  case (1 cur) then show ?case by simp
next
  case (2 cur c) then show ?case by simp
next
  case (3 cur c d s)
  then show ?case by auto
qed

lemma split_piece:
  "\<not> contains [44, 32] e \<Longrightarrow>
   split_comma_space cur (e @ 44 # 32 # s) = (cur @ e) # split_comma_space [] s"
proof (induction e arbitrary: cur)
  case Nil then show ?case by simp
next
  case (Cons c e)
  then show ?case by (cases e) auto
qed

lemma split_join_pieces:
  "\<forall>e\<in>set es. \<not> contains [44, 32] e \<Longrightarrow> es \<noteq> [] \<Longrightarrow>
   split_comma_space [] (join_comma_space es) = es"
proof (induction es rule: join_comma_space.induct)
  case 1 then show ?case by simp
next
  case (2 e) then show ?case by (simp add: split_without_separator)
next
  case (3 e f es)
  then show ?case by (simp add: js_def split_piece)
qed

lemma split_not_empty: "split_comma_space cur s \<noteq> []"
  by (induction cur s rule: split_comma_space.induct) auto

lemma join_Cons: "ps \<noteq> [] \<Longrightarrow> join_comma_space (p # ps) = p @ 44 # 32 # join_comma_space ps"
  by (cases ps) (simp_all add: js_def)

lemma join_split: "join_comma_space (split_comma_space cur s) = cur @ s"
proof (induction cur s rule: split_comma_space.induct)
  case (1 cur) then show ?case by simp
next
  case (2 cur c) then show ?case by simp
next
  case (3 cur c d s)
  then show ?case by (auto simp: join_Cons split_not_empty)
qed

lemma contains_pair_snoc:
  "contains [a, b] (xs @ [c, d]) \<longleftrightarrow> contains [a, b] (xs @ [c]) \<or> (c = a \<and> d = b)"
proof (induction xs)
  case Nil then show ?case by auto
next
  case (Cons x xs)
  then show ?case by (cases xs) auto
qed

lemma contains_pair_short: "length s \<le> 1 \<Longrightarrow> \<not> contains [a, b] s"
  by (cases s; cases "tl s") auto

lemma contains_snoc: "contains l xs \<Longrightarrow> contains l (xs @ ys)"
  unfolding contains_iff by (metis append_assoc)

lemma split_pieces_aux:
  "\<not> contains [44, 32] (cur @ take 1 s) \<Longrightarrow>
   \<forall>p\<in>set (split_comma_space cur s). \<not> contains [44, 32] p"
proof (induction cur s rule: split_comma_space.induct)
  case (1 cur) then show ?case by simp
next
  case (2 cur c) then show ?case by simp
next
  case (3 cur c d s)
  show ?case
  proof (cases "c = 44 \<and> d = 32")
    case True
    from "3.prems" have "\<not> contains [44, 32] cur"
      using contains_snoc[of "[44, 32]" cur "[c]"] by auto
    moreover have "\<forall>p\<in>set (split_comma_space [] s). \<not> contains [44, 32] p"
      using "3.IH"(1)[OF True] contains_pair_short[of "take 1 s" 44 32] by simp
    ultimately show ?thesis using True by simp
  next
    case False
    from "3.prems" False have "\<not> contains [44, 32] ((cur @ [c]) @ take 1 (d # s))"
      using contains_pair_snoc[of 44 32 cur c d] by auto
    from "3.IH"(2)[OF False this] False show ?thesis by auto
  qed
qed

lemma split_pieces: "\<forall>p\<in>set (split_comma_space [] s). \<not> contains [44, 32] p"
  using split_pieces_aux[of "[]" s] contains_pair_short[of "take 1 s" 44 32] by simp

lemma rx_match_Cls_any:
  "rx_match (Cls P # rs) s =
     (case s of [] \<Rightarrow> None | c # t \<Rightarrow> if P c then rx_match rs t else None)"
  by simp

lemma platforms_regex_captures:
  assumes "rx_exec platforms_regex s = Some caps"
  shows "\<exists>list. caps = [list]"
proof -
  from assms obtain t where "rx_match platforms_regex t = Some caps"
    by (blast dest: rx_exec_suffix)
  then show ?thesis
    unfolding platforms_regex_def nl2
    by (auto simp del: rx_match.simps
             simp add: rx_match_Lit rx_match_Cls_any rx_match_Nil rx_match_Star_Lit
               platform_char_def letter_def
             split: if_splits list.splits)
qed

section \<open>The parsers\<close>

text \<open>
  Claim C2. For every body, null included, \<open>findPriority\<close> returns a value and never
  throws, and the value is the name of the tier that the decision table gives for the two
  answers read from the body: with the answer \<open>No and the platform is unusable\<close>,
  \<open>High\<close> for the impact \<open>One\<close> and \<open>BLOCKER\<close> otherwise; with
  \<open>No but the platform is still usable\<close>, \<open>High\<close>; with
  \<open>Yes, difficult to implement\<close>, \<open>High\<close> for the impact \<open>All\<close> and \<open>Normal\<close>
  otherwise; with any other answer that is neither empty nor \<open>_No response_\<close>,
  \<open>Normal\<close> for the impacts \<open>All\<close> and \<open>Most (> 50%)\<close> and \<open>Low\<close> otherwise;
  \<open>TBD\<close> in every other case, and when the body has no match.
\<close>

theorem findPriority_decision_table:
  "findPriority body =
     (case priority_indicators body of
        None \<Rightarrow> js ''TBD''
      | Some (impact, answer) \<Rightarrow> tier_name (decide impact (workaround_of answer)))
   \<and> (\<exists>t. findPriority body = tier_name t)"
proof -
  have eq: "findPriority body =
     (case priority_indicators body of
        None \<Rightarrow> js ''TBD''
      | Some (impact, answer) \<Rightarrow> tier_name (decide impact (workaround_of answer)))"
    unfolding findPriority_def priority_indicators_def workaround_of_def
    by (cases "rx_exec priority_regex (to_string body)") (simp_all add: Let_def)
  have "\<exists>t. findPriority body = tier_name t"
  proof (cases "priority_indicators body")
    case None
    with eq have "findPriority body = tier_name TBD" by simp
    then show ?thesis by blast
  next
    case (Some a)
    with eq show ?thesis by (cases a) auto
  qed
  with eq show ?thesis by blast
qed

text \<open>The scenario of the specification: everyone is impacted and there is no workaround.\<close>

theorem findPriority_decision_table_witness:
  "findPriority (BodyText (js ''### Impact\<newline>\<newline>All\<newline>\<newline>### Available workarounds?\<newline>\<newline>No and the platform is unusable\<newline>'')) = js ''BLOCKER''"
proof -
  let ?b = "BodyText (js ''### Impact\<newline>\<newline>All\<newline>\<newline>### Available workarounds?\<newline>\<newline>No and the platform is unusable\<newline>'')"
  have d: "to_string ?b =
      [] @ js ''###'' @ 32 # js ''Impact\<newline>\<newline>'' @ js ''All'' @ js ''\<newline>\<newline>###'' @ 32 #
        js ''Available'' @ 32 # js ''workarounds?\<newline>\<newline>'' @ js ''No and the platform is unusable''
        @ js ''\<newline>'' @ []"
    by (simp add: js_def)
  have "rx_exec priority_regex (to_string ?b) = Some [js ''All'', js ''No and the platform is unusable'']"
    unfolding d by (rule priority_regex_template) (simp_all add: white_space_def line_terminator_def js_def)
  then have "priority_indicators ?b = Some (js ''All'', js ''No and the platform is unusable'')"
    by (simp add: priority_indicators_def cap_def)
  then show ?thesis
    using findPriority_decision_table[of ?b] by (simp add: workaround_of_def js_def)
qed

text \<open>
  Claim C8. A body without the section markers gives no plugin, no platform and the
  priority \<open>TBD\<close>, and no parser throws: the parsers are total functions of the body,
  null included, whose embedding has no error to return. The marker of a parser is absent
  when the body has no occurrence of its header; for the priority, when the body lacks
  one of the two headers of the pair. The words of a header may well occur in the body
  outside a header.
\<close>

theorem parsers_without_markers:
  "(\<not> has_header plugins_marker (to_string body) \<longrightarrow> findPlugins body = [])
   \<and> (\<not> has_header platforms_marker (to_string body) \<longrightarrow> findPlatforms body = [])
   \<and> (\<not> (has_header impact_marker (to_string body)
           \<and> has_header workarounds_marker (to_string body)) \<longrightarrow>
        findPriority body = js ''TBD'')"
proof -
  let ?s = "to_string body"
  have 1: "findPlugins body = []" if "\<not> has_header plugins_marker ?s"
  proof -
    have "rx_exec plugins_regex ?s = None"
      using that rx_exec_header_rx[of plugins_marker _ ?s] unfolding plugins_regex_marker
      by (cases "rx_exec (header_rx plugins_marker @ [Star plugin_char, Lit (js ''\<newline>\<newline>'')]) ?s") auto
    then show ?thesis by (simp add: findPlugins_def)
  qed
  have 2: "findPlatforms body = []" if "\<not> has_header platforms_marker ?s"
  proof -
    have "rx_exec platforms_regex ?s = None"
      using that rx_exec_header_rx[of platforms_marker _ ?s] unfolding platforms_regex_marker
      by (cases "rx_exec (header_rx platforms_marker @ [Star platform_char, Lit (js ''\<newline>\<newline>'')]) ?s") auto
    then show ?thesis by (simp add: findPlatforms_def)
  qed
  have 3: "findPriority body = js ''TBD''" if "\<not> has_header impact_marker ?s"
  proof -
    have "rx_exec priority_regex ?s = None"
    proof (cases "rx_exec priority_regex ?s")
      case None then show ?thesis .
    next
      case (Some caps)
      then have "has_header impact_marker ?s"
        unfolding priority_regex_impact by (rule rx_exec_header_rx)
      with that show ?thesis by simp
    qed
    then show ?thesis by (simp add: findPriority_def)
  qed
  have 4: "findPriority body = js ''TBD''" if "\<not> has_header workarounds_marker ?s"
  proof -
    have "rx_exec priority_regex ?s = None"
    proof (cases "rx_exec priority_regex ?s")
      case None then show ?thesis .
    next
      case (Some caps)
      then have "has_header [js ''###'', js ''Available'', js ''workarounds?\<newline>\<newline>''] ?s"
        unfolding priority_regex_workarounds by (rule rx_exec_inner_header)
      with that show ?thesis by (simp add: workarounds_marker_def)
    qed
    then show ?thesis by (simp add: findPriority_def)
  qed
  from 1 2 3 4 show ?thesis by blast
qed

text \<open>
  A body that has all the words and none of the headers, and the body \<open>null\<close> of an
  issue without text.
\<close>

theorem parsers_without_markers_witness:
  "\<not> has_header plugins_marker (js ''### Impacted plugins, Platform, Impact, Available workarounds?'')
   \<and> \<not> has_header platforms_marker (js ''### Impacted plugins, Platform, Impact, Available workarounds?'')
   \<and> \<not> has_header impact_marker (js ''### Impacted plugins, Platform, Impact, Available workarounds?'')
   \<and> findPlugins (BodyText (js ''### Impacted plugins, Platform, Impact, Available workarounds?'')) = []
   \<and> findPlatforms (BodyText (js ''### Impacted plugins, Platform, Impact, Available workarounds?'')) = []
   \<and> findPriority (BodyText (js ''### Impacted plugins, Platform, Impact, Available workarounds?'')) = js ''TBD''
   \<and> findPlugins BodyNull = [] \<and> findPlatforms BodyNull = [] \<and> findPriority BodyNull = js ''TBD''"
proof -
  let ?t = "js ''### Impacted plugins, Platform, Impact, Available workarounds?''"
  have a: "\<not> has_header plugins_marker ?t"
    by (simp add: plugins_marker_def js_def white_space_def)
  have b: "\<not> has_header platforms_marker ?t"
    by (simp add: platforms_marker_def js_def white_space_def)
  have c: "\<not> has_header impact_marker ?t"
    by (simp add: impact_marker_def js_def white_space_def)
  have n: "\<not> has_header plugins_marker (to_string BodyNull)"
    "\<not> has_header platforms_marker (to_string BodyNull)"
    "\<not> has_header impact_marker (to_string BodyNull)"
    by (simp_all add: plugins_marker_def platforms_marker_def impact_marker_def js_def)
  from parsers_without_markers[of "BodyText ?t"] parsers_without_markers[of BodyNull] a b c n
  show ?thesis by simp
qed

text \<open>
  Claim C9, as stated, fails. In this body the platform section matches and
  \<open>Self-hosted\<close> stands among other values separated by commas, without a space after
  the commas: \<open>findPlatforms\<close> returns the whole list as one entry, \<open>Self-hosted\<close>
  in it.
\<close>

theorem findPlatforms_unspaced_counterexample:
  "platform_section (BodyText
      (js ''### Platform (Simple and/or Atomic)\<newline>\<newline>Simple,Self-hosted,Atomic\<newline>\<newline>''))
     = Some (js ''Simple,Self-hosted,Atomic'')
   \<and> findPlatforms (BodyText
      (js ''### Platform (Simple and/or Atomic)\<newline>\<newline>Simple,Self-hosted,Atomic\<newline>\<newline>''))
     = [js ''Simple,Self-hosted,Atomic'']"
proof -
  let ?b = "BodyText (js ''### Platform (Simple and/or Atomic)\<newline>\<newline>Simple,Self-hosted,Atomic\<newline>\<newline>'')"
  have d: "to_string ?b =
      [] @ js ''###'' @ 32 # js ''Platform'' @ 32 # js ''(Simple'' @ 32 #
        js ''and/or Atomic)\<newline>\<newline>'' @ js ''Simple,Self-hosted,Atomic'' @ js ''\<newline>\<newline>'' @ []"
    by (simp add: js_def)
  have m: "rx_exec platforms_regex (to_string ?b) = Some [js ''Simple,Self-hosted,Atomic'']"
    unfolding d by (rule platforms_regex_template)
      (simp_all add: white_space_def platform_char_def letter_def js_def)
  have s: "split_comma_space [] (js ''Simple,Self-hosted,Atomic'') = [js ''Simple,Self-hosted,Atomic'']"
    by (simp add: js_def)
  from m s show ?thesis
    by (simp add: platform_section_def findPlatforms_def cap_def)
       (simp add: trim_def white_space_def js_def)
qed

text \<open>
  Claim C9, amended. For every body whose platform section matches, \<open>findPlatforms\<close>
  returns the pieces of the captured list that a comma followed by a space separates, in
  their order and as they are written, without the pieces equal to \<open>Self-hosted\<close> and
  without the pieces that are empty or blank. Every captured list is made of such pieces
  in one way only, so this gives the result for every such body. No entry of a result is
  \<open>Self-hosted\<close> or blank, and a body without a match gives no entry.
\<close>

theorem findPlatforms_pieces:
  "(platform_section body = None \<longrightarrow> findPlatforms body = [])
   \<and> (platform_section body = Some (join_comma_space entries)
        \<and> (\<forall>e\<in>set entries. \<not> contains (js '', '') e) \<longrightarrow>
      findPlatforms body =
        filter (\<lambda>e. e \<noteq> js ''Self-hosted'' \<and> trim e \<noteq> []) entries)
   \<and> (\<forall>list. platform_section body = Some list \<longrightarrow>
        (\<exists>pieces. list = join_comma_space pieces
                  \<and> (\<forall>e\<in>set pieces. \<not> contains (js '', '') e)))
   \<and> js ''Self-hosted'' \<notin> set (findPlatforms body)
   \<and> (\<forall>e\<in>set (findPlatforms body). trim e \<noteq> [])"
proof -
  have sep: "js '', '' = [44, 32]" by (simp add: js_def)
  have none: "findPlatforms body = []" if "platform_section body = None"
    using that by (simp add: platform_section_def findPlatforms_def)
  have some: "findPlatforms body =
        filter (\<lambda>e. e \<noteq> js ''Self-hosted'' \<and> trim e \<noteq> []) (split_comma_space [] list)"
    if "platform_section body = Some list" for list
  proof -
    from that obtain caps where c: "rx_exec platforms_regex (to_string body) = Some caps"
        "cap caps 0 = list"
      by (auto simp: platform_section_def)
    from platforms_regex_captures[OF c(1)] c(2) have "caps = [list]"
      by (auto simp: cap_def)
    with c(1) show ?thesis by (simp add: findPlatforms_def)
  qed
  have joined: "findPlatforms body =
        filter (\<lambda>e. e \<noteq> js ''Self-hosted'' \<and> trim e \<noteq> []) entries"
    if p: "platform_section body = Some (join_comma_space entries)"
      and e: "\<forall>e\<in>set entries. \<not> contains (js '', '') e"
  proof (cases "entries = []")
    case True
    with some[OF p] show ?thesis by (simp add: trim_def)
  next
    case False
    with e have "split_comma_space [] (join_comma_space entries) = entries"
      unfolding sep by (intro split_join_pieces) auto
    with some[OF p] show ?thesis by simp
  qed
  have cover: "\<exists>pieces. list = join_comma_space pieces
                  \<and> (\<forall>e\<in>set pieces. \<not> contains (js '', '') e)" for list
    unfolding sep
    using join_split[of "[]" list] split_pieces[of list]
    by (intro exI[of _ "split_comma_space [] list"]) simp
  have "js ''Self-hosted'' \<notin> set (findPlatforms body) \<and> (\<forall>e\<in>set (findPlatforms body). trim e \<noteq> [])"
  proof (cases "platform_section body")
    case None with none show ?thesis by simp
  next
    case (Some list) with some show ?thesis by simp
  qed
  with none joined cover show ?thesis by blast
qed

text \<open>\<open>Self-hosted\<close> between two other values, a comma and a space after each value.\<close>

theorem findPlatforms_pieces_witness:
  "findPlatforms (BodyText (js ''Steps### Platform (Simple and/or Atomic)\<newline>\<newline>Simple, Self-hosted, Atomic\<newline>\<newline>''))
     = [js ''Simple'', js ''Atomic'']"
proof -
  let ?b = "BodyText (js ''Steps### Platform (Simple and/or Atomic)\<newline>\<newline>Simple, Self-hosted, Atomic\<newline>\<newline>'')"
  let ?es = "[js ''Simple'', js ''Self-hosted'', js ''Atomic'']"
  have d: "to_string ?b =
      js ''Steps'' @ js ''###'' @ 32 # js ''Platform'' @ 32 # js ''(Simple'' @ 32 #
        js ''and/or Atomic)\<newline>\<newline>'' @ join_comma_space ?es @ js ''\<newline>\<newline>'' @ []"
    by (simp add: js_def)
  have "rx_exec platforms_regex (to_string ?b) = Some [join_comma_space ?es]"
    unfolding d by (rule platforms_regex_template)
      (simp_all add: white_space_def platform_char_def letter_def js_def)
  then have p: "platform_section ?b = Some (join_comma_space ?es)"
    by (simp add: platform_section_def cap_def)
  have e: "\<forall>e\<in>set ?es. \<not> contains (js '', '') e"
    by (simp add: js_def)
  from findPlatforms_pieces[of ?b ?es] p e
  have "findPlatforms ?b = filter (\<lambda>e. e \<noteq> js ''Self-hosted'' \<and> trim e \<noteq> []) ?es"
    by blast
  then show ?thesis by (simp add: trim_def white_space_def js_def)
qed

section \<open>The example run, step by step\<close>

lemma rx_match_Alt: "rx_match (Alt ls # rs) s =
   first_some (\<lambda>l. if prefix l s then map_option (Cons l) (rx_match rs (drop (length l) s)) else None) ls"
  by simp

lemma example_link:
  "rx_match project_regex (js ''https://github.com/orgs/acme/projects/11/'')
     = Some [js ''orgs'', js ''acme'', js ''11'']"
  unfolding project_regex_def
  by (simp del: rx_match.simps add: rx_match_Opt rx_match_Lit rx_match_Alt rx_match_Plus_Lit rx_match_Plus_last
       js_def not_slash_def digit_def)

lemma example_details:
  "get_prop field (js ''name'') = Inr (JStr (js ''Priority'')) \<Longrightarrow>
   getProjectDetails (example_env g field ls) (js ''https://github.com/orgs/acme/projects/11/'') =
    (Inr \<lparr>ownerType = Some (js ''organization''), ownerName = Some (js ''acme''), projectNumber = Some (Exact 11),
          projectNodeId = Some (JStr (js ''PVT_1'')), priority = Some field\<rparr>,
     [GetProject (js ''acme'') (Exact 11)])"
  unfolding getProjectDetails_def example_link
  by (cases field) (simp_all add: example_env_def example_board_def cap_def parseInt_def Let_def then_run_def graphql_def local_step_def
       bind_err_def opt_chain_def js_def)

lemma fst_then_run: "fst (then_run m f) = (case fst m of Inl e \<Rightarrow> Inl e | Inr x \<Rightarrow> fst (f x))"
  by (simp add: then_run_def split: sum.splits)

lemma snd_then_run: "snd (then_run m f) = (case fst m of Inl e \<Rightarrow> snd m | Inr x \<Rightarrow> snd m @ snd (f x))"
  by (simp add: then_run_def split: sum.splits)

lemma then_run_Inr: "then_run (Inr x, t) f = (fst (f x), t @ snd (f x))"
  by (simp add: then_run_def)

lemma then_run_Inl: "then_run (Inl e, t) f = (Inl e, t)"
  by (simp add: then_run_def)

lemmas run_steps = then_run_Inr then_run_Inl graphql_def local_step_def bind_err_def opt_chain_def
  getLabels_def addLabels_def

lemma example_item:
  "getItemNodeId (example_env g field ls) n = (Inr (js ''PVTI_lADOCGvWfc4AUwHEzgI4tDo''), [GetIssueProjectDetails n])"
  by (simp add: getItemNodeId_def example_env_def run_steps js_def)

lemma example_board_bound:
  "triage_board (example_env (Some g) example_priority_field ls) example_issue =
     (Inr True, [GetProject (js ''acme'') (Exact 11), GetProjectNumber (js ''I_1'') 11,
                 GetIssueProjectDetails (js ''I_1''),
                 UpdateField (JStr (js ''F1'')) (js ''PVTI_lADOCGvWfc4AUwHEzgI4tDo'') g (JStr (js ''o4''))])"
proof -
  have l: "project_board (example_env (Some g) example_priority_field ls) = js ''https://github.com/orgs/acme/projects/11/''"
    by (simp add: example_env_def)
  have n: "get_prop example_priority_field (js ''name'') = Inr (JStr (js ''Priority''))"
    by (simp add: example_priority_field_def js_def)
  show ?thesis
    unfolding triage_board_def l example_details[OF n] example_item
    by (simp add: example_env_def example_issue_def example_priority_field_def priorityText_def
         updateProjectField_def run_steps js_def)
qed

lemma example_board_unbound:
  "triage_board (example_env None example_priority_field ls) example_issue =
     (Inl ReferenceError, [GetProject (js ''acme'') (Exact 11), GetProjectNumber (js ''I_1'') 11,
                 GetIssueProjectDetails (js ''I_1'')])"
proof -
  have l: "project_board (example_env None example_priority_field ls) = js ''https://github.com/orgs/acme/projects/11/''"
    by (simp add: example_env_def)
  have n: "get_prop example_priority_field (js ''name'') = Inr (JStr (js ''Priority''))"
    by (simp add: example_priority_field_def js_def)
  show ?thesis
    unfolding triage_board_def l example_details[OF n] example_item
    by (simp add: example_env_def example_issue_def example_priority_field_def priorityText_def
         updateProjectField_def run_steps js_def)
qed

lemma example_plugins: "findPlugins (issue_body example_issue) = [js ''Alpha'', js ''Beta'']"
proof -
  have d: "to_string (issue_body example_issue) =
     [] @ js ''###'' @ 32 # js ''Impacted'' @ 32 # js ''plugin\<newline>\<newline>'' @ js ''Alpha, Beta'' @ js ''\<newline>\<newline>''
       @ js ''### Impact\<newline>\<newline>All\<newline>\<newline>### Available workarounds?\<newline>\<newline>No and the platform is unusable\<newline>''"
    by (simp add: example_issue_def js_def)
  have "rx_exec plugins_regex (to_string (issue_body example_issue)) = Some [js ''Alpha, Beta'']"
    unfolding d by (rule plugins_regex_template) (simp_all add: white_space_def plugin_char_def letter_def js_def)
  then show ?thesis by (simp add: findPlugins_def trim_def white_space_def js_def)
qed

lemma example_platforms: "findPlatforms (issue_body example_issue) = []"
proof -
  have "\<not> contains (js ''Platform'') (to_string (issue_body example_issue))"
    by (simp add: example_issue_def js_def)
  then have "rx_exec platforms_regex (to_string (issue_body example_issue)) = None"
    by (intro rx_exec_absent[of "js ''Platform''"]) (simp_all add: platforms_regex_def)
  then show ?thesis by (simp add: findPlatforms_def)
qed

lemma example_priority: "findPriority (issue_body example_issue) = js ''BLOCKER''"
proof -
  have d: "to_string (issue_body example_issue) =
      js ''### Impacted plugin\<newline>\<newline>Alpha, Beta\<newline>\<newline>'' @ js ''###'' @ 32 # js ''Impact\<newline>\<newline>'' @ js ''All'' @ js ''\<newline>\<newline>###'' @ 32 #
        js ''Available'' @ 32 # js ''workarounds?\<newline>\<newline>'' @ js ''No and the platform is unusable''
        @ js ''\<newline>'' @ []"
    by (simp add: example_issue_def js_def)
  have "rx_exec priority_regex (to_string (issue_body example_issue)) = Some [js ''All'', js ''No and the platform is unusable'']"
    unfolding d by (rule priority_regex_template) (simp_all add: white_space_def line_terminator_def js_def)
  then show ?thesis by (simp add: findPriority_def cap_def js_def)
qed

section \<open>The calls of a run\<close>

lemma then_run_event:
  "e \<in> set (snd (then_run m f)) \<Longrightarrow>
   e \<in> set (snd m) \<or> (\<exists>x. fst m = Inr x \<and> e \<in> set (snd (f x)))"
  by (auto simp: then_run_def split: sum.splits)

lemma then_run_failed: "fst m = Inl e \<Longrightarrow> then_run m f = (Inl e, snd m)"
  by (simp add: then_run_def)

lemma then_run_returns:
  "fst (then_run m f) = Inr y \<Longrightarrow> \<exists>x. fst m = Inr x \<and> fst (f x) = Inr y"
  by (auto simp: then_run_def split: sum.splits)

lemma added_labels_append: "added_labels (a @ b) = added_labels a @ added_labels b"
  by (induction a rule: added_labels.induct) auto

lemma field_updates_append: "field_updates (a @ b) = field_updates a @ field_updates b"
  by (induction a rule: field_updates.induct) auto

lemma added_labels_none:
  "(\<And>owner repo number labels. AddLabels owner repo number labels \<notin> set t) \<Longrightarrow> added_labels t = []"
  by (induction t rule: added_labels.induct) auto

lemma field_updates_none:
  "(\<And>f i g opt. UpdateField f i g opt \<notin> set t) \<Longrightarrow> field_updates t = []"
  by (induction t rule: field_updates.induct) auto

lemma getProjectDetails_events:
  "e \<in> set (snd (getProjectDetails env link)) \<Longrightarrow> \<exists>name number. e = GetProject name number"
  unfolding getProjectDetails_def
  by (auto simp: Let_def graphql_def local_step_def split: option.splits dest!: then_run_event)

lemma getItemNodeId_events:
  "e \<in> set (snd (getItemNodeId env n)) \<Longrightarrow> e = GetIssueProjectDetails n"
  unfolding getItemNodeId_def
  by (auto simp: graphql_def local_step_def dest!: then_run_event)

lemma log_of_item_query:
  "bind_err (get_prop (JObj d) (js ''node''))
     (\<lambda>n. opt_chain n (\<lambda>n. get_prop n (js ''projectItems''))) \<noteq> Inl e"
proof -
  have "get_prop v k \<noteq> Inl e" if "v \<noteq> JUndefined" "v \<noteq> JNull" for v k
    using that by (cases v) auto
  then show ?thesis by (auto simp: bind_err_def opt_chain_def)
qed

lemma getItemNodeId_result:
  "fst (getItemNodeId env n) =
     (case getIssueProjectDetails_response env of
        Inl e \<Rightarrow> Inl e
      | Inr d \<Rightarrow> Inr (js ''PVTI_lADOCGvWfc4AUwHEzgI4tDo''))"
proof (cases "getIssueProjectDetails_response env")
  case (Inl e)
  then show ?thesis by (simp add: getItemNodeId_def graphql_def then_run_def)
next
  case (Inr d)
  obtain v where "bind_err (get_prop (JObj d) (js ''node''))
     (\<lambda>n. opt_chain n (\<lambda>n. get_prop n (js ''projectItems''))) = Inr v"
    using log_of_item_query[of d] by (metis sum.exhaust_sel sum.collapse(1))
  with Inr show ?thesis by (simp add: getItemNodeId_def graphql_def then_run_def local_step_def)
qed

lemma getItemNodeId_value:
  "fst (getItemNodeId env n) = Inr x \<Longrightarrow> x = js ''PVTI_lADOCGvWfc4AUwHEzgI4tDo''"
  by (auto simp: getItemNodeId_result split: sum.splits)

lemma updateProjectField_events:
  "snd (updateProjectField env f i g opt) = [UpdateField f i g opt]"
  by (simp add: updateProjectField_def graphql_def then_run_def local_step_def split: sum.splits)

lemma triage_board_events:
  assumes "e \<in> set (snd (triage_board env p))"
  shows "(\<exists>name number. e = GetProject name number)
       \<or> e = GetProjectNumber (issue_node_id p) 11
       \<or> e = GetIssueProjectDetails (issue_node_id p)
       \<or> (\<exists>f g opt. e = UpdateField f (js ''PVTI_lADOCGvWfc4AUwHEzgI4tDo'') g opt)"
  using assms unfolding triage_board_def
  by (auto simp: graphql_def local_step_def updateProjectField_events
           dest!: then_run_event getProjectDetails_events getItemNodeId_events
           dest: getItemNodeId_value)

lemma triage_board_adds_no_label: "added_labels (snd (triage_board env p)) = []"
  by (rule added_labels_none) (auto dest: triage_board_events)

lemma triage_labels_events:
  assumes "e \<in> set (snd (triage_labels env p))"
  shows "(\<exists>owner repo number. e = GetLabels owner repo number)
       \<or> (\<exists>owner repo number labels. e = AddLabels owner repo number labels)"
  using assms unfolding triage_labels_def hasPriorityLabels_def isBug_def
  by (auto simp: getLabels_def addLabels_def local_step_def
           dest!: then_run_event split: if_splits)

lemma triage_labels_updates_no_field: "field_updates (snd (triage_labels env p)) = []"
  by (rule field_updates_none) (auto dest: triage_labels_events)

lemma is_priority_label_iff:
  "is_priority_label l \<longleftrightarrow>
     prefix (js ''[Pri]'') l \<and> (\<forall>c\<in>set (drop 5 l). \<not> line_terminator c)"
proof -
  have "length (js ''[Pri]'') = 5" by (simp add: js_def)
  then show ?thesis
    unfolding is_priority_label_def priority_label_regex_def
    by (simp del: rx_match.simps add: rx_match_Lit rx_match_Star_Eos rx_match_Eos rx_match_Nil
          dropWhile_eq_Nil_conv dot_def)
qed

lemma plugin_labels_not_priority:
  "filter (prefix (js ''[Pri]'')) (map (\<lambda>plugin. js ''[Plugin] '' @ plugin) xs) = []"
  by (induction xs) (simp_all add: js_def)

lemma platform_labels_not_priority:
  "filter (prefix (js ''[Pri]'')) (map (\<lambda>platform. js ''[Platform] '' @ platform) xs) = []"
  by (induction xs) (simp_all add: js_def)

lemma priority_label_is_priority: "prefix (js ''[Pri]'') (js ''[Pri] '' @ x)"
  by (simp add: js_def)

lemma triage_board_returns:
  assumes "fst (triage_board env p) = Inr y"
  shows "rx_match project_regex (project_board env) \<noteq> None
       \<and> (\<exists>d. getProject_response env = Inr d)
       \<and> (\<exists>d. getProjectNumber_response env = Inr d)
       \<and> (\<exists>d. getIssueProjectDetails_response env = Inr d)
       \<and> (\<exists>d. updateField_response env = Inr d)
       \<and> global_projectNodeId env \<noteq> None"
proof -
  from assms obtain info where info: "fst (getProjectDetails env (project_board env)) = Inr info"
      and rest: "\<exists>d. getProjectNumber_response env = Inr d"
                "\<exists>x. fst (getItemNodeId env (issue_node_id p)) = Inr x"
                "priority info \<noteq> None"
                "global_projectNodeId env \<noteq> None"
                "\<exists>d. updateField_response env = Inr d"
    unfolding triage_board_def updateProjectField_def
    by (auto simp: graphql_def local_step_def map_sum_def
             dest!: then_run_returns split: option.splits sum.splits)
  from info rest(3) have "rx_match project_regex (project_board env) \<noteq> None
       \<and> (\<exists>d. getProject_response env = Inr d)"
    unfolding getProjectDetails_def
    by (auto simp: Let_def graphql_def local_step_def no_project_info_def map_sum_def
             dest!: then_run_returns split: option.splits sum.splits)
  moreover from rest(2) have "\<exists>d. getIssueProjectDetails_response env = Inr d"
    by (auto simp: getItemNodeId_result split: sum.splits)
  ultimately show ?thesis using rest by blast
qed

lemma run_after_board_failure:
  assumes "project_automation_token env \<noteq> []" "project_board env \<noteq> []"
    and "fst (triage_board env p) = Inl e"
  shows "triageIssues env p = (Inl e, snd (triage_board env p))"
  using assms by (simp add: triageIssues_def then_run_failed)

lemma run_after_board_success:
  assumes "project_automation_token env \<noteq> []" "project_board env \<noteq> []"
    and "fst (triage_board env p) = Inr y"
  shows "triageIssues env p =
           (fst (triage_labels env p), snd (triage_board env p) @ snd (triage_labels env p))"
  using assms by (simp add: triageIssues_def then_run_def)

text \<open>
  In the repository as it stands nothing defines \<open>projectNodeId\<close> in the global
  object: every run whose inputs are set ends with an error, before any update of the
  board and before any label is read or added.
\<close>

lemma unbound_identifier_run:
  assumes "project_automation_token env \<noteq> []" "project_board env \<noteq> []"
    and "global_projectNodeId env = None"
  shows "(\<exists>e. fst (triageIssues env p) = Inl e)
       \<and> field_updates (snd (triageIssues env p)) = []
       \<and> added_labels (snd (triageIssues env p)) = []"
proof -
  obtain e where e: "fst (triage_board env p) = Inl e"
    using triage_board_returns[of env p] assms(3) by (cases "fst (triage_board env p)") auto
  have "UpdateField f i g opt \<notin> set (snd (triage_board env p))" for f i g opt
    using assms(3) unfolding triage_board_def
    by (auto simp: graphql_def local_step_def
             dest!: then_run_event getProjectDetails_events getItemNodeId_events)
  then have "field_updates (snd (triage_board env p)) = []"
    by (rule field_updates_none)
  with e show ?thesis
    using run_after_board_failure[OF assms(1,2) e] triage_board_adds_no_label[of env p] by simp
qed

lemma added_by_run:
  "added_labels (snd (triageIssues env p)) = []
   \<or> added_labels (snd (triageIssues env p)) = added_labels (snd (triage_labels env p))"
proof (cases "project_automation_token env = [] \<or> project_board env = []")
  case True then show ?thesis by (auto simp: triageIssues_def)
next
  case False
  then have c: "project_automation_token env \<noteq> []" "project_board env \<noteq> []" by auto
  show ?thesis
  proof (cases "fst (triage_board env p)")
    case (Inl e)
    from run_after_board_failure[OF c Inl] show ?thesis
      by (simp add: triage_board_adds_no_label)
  next
    case (Inr y)
    from run_after_board_success[OF c Inr] show ?thesis
      by (simp add: added_labels_append triage_board_adds_no_label)
  qed
qed

section \<open>The labels that a run adds\<close>

lemma apl_then_run:
  "added_priority_labels (snd (then_run m f)) =
     added_priority_labels (snd m) @
     (case fst m of Inl e \<Rightarrow> [] | Inr x \<Rightarrow> added_priority_labels (snd (f x)))"
  by (simp add: added_priority_labels_def then_run_def added_labels_append split: sum.splits)

lemma apl_local_step: "added_priority_labels (snd (local_step r)) = []"
  by (simp add: added_priority_labels_def local_step_def)

lemma apl_plugins:
  "added_priority_labels (snd (addLabels env owner repo number
      (map (\<lambda>plugin. js ''[Plugin] '' @ plugin) xs))) = []"
  by (simp add: added_priority_labels_def addLabels_def plugin_labels_not_priority)

lemma apl_platforms:
  "added_priority_labels (snd (addLabels env owner repo number
      (map (\<lambda>platform. js ''[Platform] '' @ platform) xs))) = []"
  by (simp add: added_priority_labels_def addLabels_def platform_labels_not_priority)

lemma apl_priority:
  "added_priority_labels (snd (addLabels env owner repo number [js ''[Pri] '' @ x])) =
     [js ''[Pri] '' @ x]"
  by (simp add: added_priority_labels_def addLabels_def priority_label_is_priority)

lemma hasPriorityLabels_eq:
  "hasPriorityLabels r owner repo number act ev =
     (case r of
        Inl e \<Rightarrow> Inl e
      | Inr labels \<Rightarrow> Inr (filter is_priority_label
          (case ev of
             Some n \<Rightarrow> if act = js ''labeled'' \<and> n \<noteq> [] \<and> is_priority_label n
                       then labels @ [n] else labels
           | None \<Rightarrow> labels)),
      [GetLabels owner repo number])"
  by (simp add: hasPriorityLabels_def getLabels_def local_step_def then_run_def split: sum.splits)

lemma isBug_eq:
  "isBug r owner repo number act ev =
     (case r of
        Inl e \<Rightarrow> Inl e
      | Inr labels \<Rightarrow> Inr (js ''[Type] Bug'' \<in> set labels
          \<or> (case ev of
                Some n \<Rightarrow> act = js ''labeled'' \<and> n \<noteq> [] \<and> js ''[Type] Bug'' = n
              | None \<Rightarrow> False)),
      [GetLabels owner repo number])"
  by (simp add: isBug_def getLabels_def local_step_def then_run_def split: sum.splits)

lemma apl_Nil: "added_priority_labels [] = []"
  by (simp add: added_priority_labels_def)

lemma apl_GetLabels:
  "added_priority_labels (GetLabels owner repo number # t) = added_priority_labels t"
  by (simp add: added_priority_labels_def)

lemma apl_append:
  "added_priority_labels (a @ b) = added_priority_labels a @ added_priority_labels b"
  by (simp add: added_priority_labels_def added_labels_append)

lemma apl_labels_phase:
  assumes "added_priority_labels (snd (triage_labels env p)) \<noteq> []"
  shows "added_priority_labels (snd (triage_labels env p)) = [js ''[Pri] '' @ findPriority (issue_body p)]
       \<and> (action p = js ''opened'' \<or> action p = js ''reopened'')
       \<and> (\<exists>labels. getLabels_first env = Inr labels \<and> filter is_priority_label labels = [])
       \<and> (\<exists>labels. getLabels_second env = Inr labels \<and> js ''[Type] Bug'' \<in> set labels)"
proof (cases "getLabels_first env")
  case (Inl e)
  have "added_priority_labels (snd (triage_labels env p)) = []"
    unfolding triage_labels_def hasPriorityLabels_eq Inl
    by (simp add: then_run_Inl apl_GetLabels apl_Nil)
  with assms show ?thesis by simp
next
  case l1: (Inr l1)
  show ?thesis
  proof (cases "getLabels_second env")
    case (Inl e)
    have "added_priority_labels (snd (triage_labels env p)) = []"
      unfolding triage_labels_def hasPriorityLabels_eq isBug_eq l1 Inl
      by (simp add: then_run_Inl then_run_Inr apl_GetLabels apl_Nil apl_append)
    with assms show ?thesis by simp
  next
    case l2: (Inr l2)
    show ?thesis
    proof (cases "action p = js ''opened'' \<or> action p = js ''reopened''")
      case False
      have "added_priority_labels (snd (triage_labels env p)) = []"
        unfolding triage_labels_def hasPriorityLabels_eq isBug_eq l1 l2
        using False
        by (simp add: then_run_Inr apl_GetLabels apl_Nil apl_append apl_local_step)
      with assms show ?thesis by simp
    next
      case True
      have "js ''opened'' \<noteq> js ''labeled''" "js ''reopened'' \<noteq> js ''labeled''"
        by (simp_all add: js_def)
      with True have nl: "action p \<noteq> js ''labeled''" by auto
      have hp: "(case label_name p of
             Some n \<Rightarrow> if action p = js ''labeled'' \<and> n \<noteq> [] \<and> is_priority_label n
                       then l1 @ [n] else l1
           | None \<Rightarrow> l1) = l1"
        using nl by (simp split: option.splits)
      have hb: "(case label_name p of
                Some n \<Rightarrow> action p = js ''labeled'' \<and> n \<noteq> [] \<and> js ''[Type] Bug'' = n
              | None \<Rightarrow> False) = False"
        using nl by (simp split: option.splits)
      define m1 where "m1 = (if findPlugins (issue_body p) \<noteq> []
                 then addLabels env (owner_login p) (repo_name p) (issue_number p)
                        (map (\<lambda>plugin. js ''[Plugin] '' @ plugin) (findPlugins (issue_body p)))
                 else local_step (Inr ()))"
      define m2 where "m2 = (if findPlatforms (issue_body p) \<noteq> []
                 then addLabels env (owner_login p) (repo_name p) (issue_number p)
                        (map (\<lambda>platform. js ''[Platform] '' @ platform)
                           (findPlatforms (issue_body p)))
                 else local_step (Inr ()))"
      define r where "r = (if filter is_priority_label l1 = [] \<and> js ''[Type] Bug'' \<in> set l2
       then addLabels env (owner_login p) (repo_name p) (issue_number p)
              [js ''[Pri] '' @ findPriority (issue_body p)]
       else local_step (Inr ()))"
      have a1: "added_priority_labels (snd m1) = []"
        unfolding m1_def by (simp add: apl_plugins apl_local_step)
      have a2: "added_priority_labels (snd m2) = []"
        unfolding m2_def by (simp add: apl_platforms apl_local_step)
      have ar: "added_priority_labels (snd r) =
            (if filter is_priority_label l1 = [] \<and> js ''[Type] Bug'' \<in> set l2
             then [js ''[Pri] '' @ findPriority (issue_body p)] else [])"
        unfolding r_def by (simp add: apl_priority apl_local_step)
      have t: "triage_labels env p =
         then_run (Inr (filter is_priority_label l1),
                   [GetLabels (owner_login p) (repo_name p) (issue_number p)])
           (\<lambda>priorityLabels.
         then_run (Inr (js ''[Type] Bug'' \<in> set l2),
                   [GetLabels (owner_login p) (repo_name p) (issue_number p)])
           (\<lambda>isBugIssue. then_run m1 (\<lambda>u. then_run m2 (\<lambda>u.
               if priorityLabels = [] \<and> isBugIssue
               then addLabels env (owner_login p) (repo_name p) (issue_number p)
                      [js ''[Pri] '' @ findPriority (issue_body p)]
               else local_step (Inr ())))))"
        unfolding triage_labels_def hasPriorityLabels_eq isBug_eq l1 l2 m1_def m2_def
        using True by (simp add: hp hb)
      have "added_priority_labels (snd (triage_labels env p)) =
              (case fst m1 of Inl e \<Rightarrow> [] | Inr u \<Rightarrow>
                 (case fst m2 of Inl e \<Rightarrow> [] | Inr u \<Rightarrow> added_priority_labels (snd r)))"
        unfolding t
        by (simp add: then_run_Inr apl_append apl_GetLabels apl_Nil apl_then_run a1 a2 r_def
              apl_priority apl_local_step split: sum.splits)
      with assms ar have
        "filter is_priority_label l1 = [] \<and> js ''[Type] Bug'' \<in> set l2
         \<and> added_priority_labels (snd (triage_labels env p)) =
             [js ''[Pri] '' @ findPriority (issue_body p)]"
        by (auto split: sum.splits if_splits)
      with l1 l2 True show ?thesis by blast
    qed
  qed
qed

lemma labels_added_when_labeled:
  "action p = js ''labeled'' \<Longrightarrow> added_labels (snd (triage_labels env p)) = []"
  unfolding triage_labels_def hasPriorityLabels_eq isBug_eq
  by (simp add: then_run_def local_step_def js_def split: sum.splits)

section \<open>Runs of the example\<close>

lemma example_labels_phase:
  "triage_labels (example_env g field ls) example_issue =
     (Inr (),
      [GetLabels (js ''acme'') (js ''widgets'') 7, GetLabels (js ''acme'') (js ''widgets'') 7,
       AddLabels (js ''acme'') (js ''widgets'') 7 [js ''[Plugin] Alpha'', js ''[Plugin] Beta'']]
      @ (if filter is_priority_label ls = [] \<and> js ''[Type] Bug'' \<in> set ls
         then [AddLabels (js ''acme'') (js ''widgets'') 7 [js ''[Pri] BLOCKER'']] else []))"
proof -
  have a: "action example_issue = js ''opened''" "label_name example_issue = None"
    "owner_login example_issue = js ''acme''" "repo_name example_issue = js ''widgets''"
    "issue_number example_issue = 7"
    by (simp_all add: example_issue_def)
  have e: "getLabels_first (example_env g field ls) = Inr ls"
    "getLabels_second (example_env g field ls) = Inr ls"
    "addLabels_response (example_env g field ls) = (\<lambda>labels. None)"
    by (simp_all add: example_env_def)
  have s: "js ''[Plugin] '' @ js ''Alpha'' = js ''[Plugin] Alpha''"
    "js ''[Plugin] '' @ js ''Beta'' = js ''[Plugin] Beta''"
    "js ''[Pri] '' @ js ''BLOCKER'' = js ''[Pri] BLOCKER''"
    by (simp_all add: js_def)
  show ?thesis
    unfolding triage_labels_def hasPriorityLabels_eq isBug_eq example_plugins example_platforms
      example_priority a e
    by (simp add: then_run_Inr addLabels_def local_step_def e s)
qed

lemma example_run_bound:
  "triageIssues (example_env (Some g) example_priority_field ls) example_issue =
     (Inr (),
      [GetProject (js ''acme'') (Exact 11), GetProjectNumber (js ''I_1'') 11,
       GetIssueProjectDetails (js ''I_1''),
       UpdateField (JStr (js ''F1'')) (js ''PVTI_lADOCGvWfc4AUwHEzgI4tDo'') g (JStr (js ''o4'')),
       GetLabels (js ''acme'') (js ''widgets'') 7, GetLabels (js ''acme'') (js ''widgets'') 7,
       AddLabels (js ''acme'') (js ''widgets'') 7 [js ''[Plugin] Alpha'', js ''[Plugin] Beta'']]
      @ (if filter is_priority_label ls = [] \<and> js ''[Type] Bug'' \<in> set ls
         then [AddLabels (js ''acme'') (js ''widgets'') 7 [js ''[Pri] BLOCKER'']] else []))"
proof -
  have c: "project_automation_token (example_env (Some g) example_priority_field ls) \<noteq> []"
    "project_board (example_env (Some g) example_priority_field ls) \<noteq> []"
    by (simp_all add: example_env_def js_def)
  show ?thesis
    using run_after_board_success[OF c, of example_issue True]
    by (simp add: example_board_bound example_labels_phase)
qed

lemma example_run_unbound:
  "triageIssues (example_env None example_priority_field ls) example_issue =
     (Inl ReferenceError,
      [GetProject (js ''acme'') (Exact 11), GetProjectNumber (js ''I_1'') 11,
       GetIssueProjectDetails (js ''I_1'')])"
proof -
  have c: "project_automation_token (example_env None example_priority_field ls) \<noteq> []"
    "project_board (example_env None example_priority_field ls) \<noteq> []"
    by (simp_all add: example_env_def js_def)
  show ?thesis
    using run_after_board_failure[OF c, of example_issue ReferenceError]
    by (simp add: example_board_unbound)
qed

lemma example_board_without_low:
  "triage_board (example_env g example_field_without_low ls) example_issue =
     ((case g of None \<Rightarrow> Inl ReferenceError | Some v \<Rightarrow> Inl TypeError),
      [GetProject (js ''acme'') (Exact 11), GetProjectNumber (js ''I_1'') 11,
       GetIssueProjectDetails (js ''I_1'')])"
proof -
  have l: "project_board (example_env g example_field_without_low ls) = js ''https://github.com/orgs/acme/projects/11/''"
    by (simp add: example_env_def)
  have n: "get_prop example_field_without_low (js ''name'') = Inr (JStr (js ''Priority''))"
    by (simp add: example_field_without_low_def js_def)
  show ?thesis
    unfolding triage_board_def l example_details[OF n] example_item
    by (cases g) (simp_all add: example_env_def example_issue_def example_field_without_low_def priorityText_def
         updateProjectField_def run_steps js_def)
qed

lemma invalid_example_link:
  "rx_match project_regex (js ''https://github.com/orgs/acme'') = None"
  unfolding project_regex_def
  by (simp del: rx_match.simps add: rx_match_Opt rx_match_Lit rx_match_Alt rx_match_Plus_Lit rx_match_Plus_last
       js_def not_slash_def digit_def)

lemma example_board_invalid_link:
  "triage_board ((example_env g field ls)\<lparr>project_board := js ''https://github.com/orgs/acme''\<rparr>) example_issue =
     (Inl TypeError, [GetProjectNumber (js ''I_1'') 11, GetIssueProjectDetails (js ''I_1'')])"
proof -
  let ?env = "(example_env g field ls)\<lparr>project_board := js ''https://github.com/orgs/acme''\<rparr>"
  have l: "project_board ?env = js ''https://github.com/orgs/acme''"
    by simp
  have d: "getProjectDetails ?env (js ''https://github.com/orgs/acme'') = (Inr no_project_info, [])"
    by (simp add: getProjectDetails_def invalid_example_link local_step_def)
  have i: "getItemNodeId ?env n = (Inr (js ''PVTI_lADOCGvWfc4AUwHEzgI4tDo''), [GetIssueProjectDetails n])" for n
    by (simp add: getItemNodeId_def example_env_def run_steps js_def)
  show ?thesis
    unfolding triage_board_def l d i
    by (simp add: example_env_def example_issue_def no_project_info_def run_steps js_def)
qed

lemma example_board_rejected:
  "triage_board ((example_env g field ls)\<lparr>getProject_response := Inl e\<rparr>) example_issue =
     (Inl e, [GetProject (js ''acme'') (Exact 11)])"
proof -
  let ?env = "(example_env g field ls)\<lparr>getProject_response := Inl e\<rparr>"
  have l: "project_board ?env = js ''https://github.com/orgs/acme/projects/11/''"
    by (simp add: example_env_def)
  have d: "getProjectDetails ?env (js ''https://github.com/orgs/acme/projects/11/'') =
      (Inl e, [GetProject (js ''acme'') (Exact 11)])"
    unfolding getProjectDetails_def example_link
    by (simp add: cap_def parseInt_def Let_def graphql_def then_run_Inl js_def)
  show ?thesis
    unfolding triage_board_def l d by (simp add: then_run_Inl)
qed

section \<open>The claims about a run\<close>

text \<open>The calls of the board do not depend on the body of the issue.\<close>

lemma board_ignores_body:
  "triage_board env (p\<lparr>issue_body := body\<rparr>) = triage_board env p"
  by (simp add: triage_board_def)

text \<open>Whatever the run, a link that does not match ends it with an error, and without
  a label added.\<close>

lemma invalid_link_run:
  assumes "project_automation_token env \<noteq> []" and "project_board env \<noteq> []"
    and "rx_match project_regex (project_board env) = None"
  shows "(\<exists>e. fst (triageIssues env p) = Inl e) \<and> added_labels (snd (triageIssues env p)) = []"
proof -
  obtain e where e: "fst (triage_board env p) = Inl e"
    using triage_board_returns[of env p] assms(3) by (cases "fst (triage_board env p)") auto
  from run_after_board_failure[OF assms(1,2) e] show ?thesis
    by (simp add: triage_board_adds_no_label)
qed

lemma run_events:
  assumes "e \<in> set (snd (triageIssues env p))"
  shows "(\<exists>m. e = SetFailed m) \<or> e \<in> set (snd (triage_board env p))
         \<or> e \<in> set (snd (triage_labels env p))"
  using assms unfolding triageIssues_def
  by (auto dest!: then_run_event split: if_splits)

text \<open>
  Claim C7. When the project automation token or the link of the project board is not
  set, the run reports the failure with \<open>setFailed\<close> and returns: \<open>setFailed\<close> is
  its only call, so it makes no remote call, adds no label and updates no field.
\<close>

theorem missing_input_aborts:
  assumes "project_automation_token env = [] \<or> project_board env = []"
  shows "triageIssues env p =
           (Inr (), [SetFailed (if project_automation_token env = []
                                then missing_token_message else missing_board_message)])"
  using assms by (auto simp: triageIssues_def)

text \<open>
  The example without its token, and without its link.
\<close>

theorem missing_input_aborts_witness:
  "triageIssues ((example_env None example_priority_field [])\<lparr>project_automation_token := []\<rparr>)
     example_issue = (Inr (), [SetFailed missing_token_message])
   \<and> triageIssues ((example_env None example_priority_field [])\<lparr>project_board := []\<rparr>)
     example_issue = (Inr (), [SetFailed missing_board_message])"
  using missing_input_aborts[of "(example_env None example_priority_field [])\<lparr>project_automation_token := []\<rparr>" example_issue]
        missing_input_aborts[of "(example_env None example_priority_field [])\<lparr>project_board := []\<rparr>" example_issue]
  by (simp add: example_env_def js_def)

text \<open>
  Claim C10. Whatever the node id of the issue and whatever data its query resolves to,
  \<open>getItemNodeId\<close> returns the string \<open>PVTI_lADOCGvWfc4AUwHEzgI4tDo\<close> (when the query
  is rejected it returns nothing: the rejection is thrown). Hence every update of a field
  that a run of \<open>triageIssues\<close> makes, for any event, has this string as its item.
\<close>

theorem item_node_id_is_constant:
  "fst (getItemNodeId env nodeId) =
     (case getIssueProjectDetails_response env of
        Inl e \<Rightarrow> Inl e
      | Inr d \<Rightarrow> Inr (js ''PVTI_lADOCGvWfc4AUwHEzgI4tDo''))
   \<and> (\<forall>f i g opt. UpdateField f i g opt \<in> set (snd (triageIssues env p))
         \<longrightarrow> i = js ''PVTI_lADOCGvWfc4AUwHEzgI4tDo'')"
proof -
  have "i = js ''PVTI_lADOCGvWfc4AUwHEzgI4tDo''"
    if "UpdateField f i g opt \<in> set (snd (triageIssues env p))" for f i g opt
    using run_events[OF that] by (auto dest: triage_board_events triage_labels_events)
  then show ?thesis using getItemNodeId_result by blast
qed

text \<open>
  The example with \<open>projectNodeId\<close> defined: the run updates the field, for this item.
\<close>

theorem item_node_id_is_constant_witness:
  "fst (getItemNodeId (example_env (Some (JStr (js ''PVT_1''))) example_priority_field []) (js ''I_1''))
     = Inr (js ''PVTI_lADOCGvWfc4AUwHEzgI4tDo'')
   \<and> field_updates (snd (triageIssues (example_env (Some (JStr (js ''PVT_1''))) example_priority_field [])
        example_issue))
     = [UpdateField (JStr (js ''F1'')) (js ''PVTI_lADOCGvWfc4AUwHEzgI4tDo'') (JStr (js ''PVT_1''))
          (JStr (js ''o4''))]"
proof -
  let ?env = "example_env (Some (JStr (js ''PVT_1''))) example_priority_field []"
  have "getIssueProjectDetails_response ?env =
          Inr [(js ''node'', JObj [(js ''projectItems'', JObj [(js ''nodes'', JArr [])])])]"
    by (simp add: example_env_def)
  then have "fst (getItemNodeId ?env (js ''I_1'')) = Inr (js ''PVTI_lADOCGvWfc4AUwHEzgI4tDo'')"
    using item_node_id_is_constant[of ?env "js ''I_1''" example_issue] by simp
  then show ?thesis by (simp add: example_run_bound)
qed

text \<open>
  Claim C4, as stated, fails. In the example the issue is opened, its body names two
  plugins, and the query of the project is rejected: the rejection is not caught, the run
  ends with it, and the only call it has made is the rejected query, so no label was read
  or added.
\<close>

theorem board_failure_counterexample:
  "action example_issue = js ''opened''
   \<and> findPlugins (issue_body example_issue) = [js ''Alpha'', js ''Beta'']
   \<and> triageIssues ((example_env (Some (JStr (js ''PVT_1''))) example_priority_field [js ''[Type] Bug''])
        \<lparr>getProject_response := Inl (RemoteError (js ''Bad credentials''))\<rparr>) example_issue
     = (Inl (RemoteError (js ''Bad credentials'')), [GetProject (js ''acme'') (Exact 11)])"
proof -
  let ?env = "(example_env (Some (JStr (js ''PVT_1''))) example_priority_field [js ''[Type] Bug''])
        \<lparr>getProject_response := Inl (RemoteError (js ''Bad credentials''))\<rparr>"
  have c: "project_automation_token ?env \<noteq> []" "project_board ?env \<noteq> []"
    by (simp_all add: example_env_def js_def)
  have "triageIssues ?env example_issue
     = (Inl (RemoteError (js ''Bad credentials'')), [GetProject (js ''acme'') (Exact 11)])"
    using run_after_board_failure[OF c, of example_issue "RemoteError (js ''Bad credentials'')"]
    by (simp add: example_board_rejected)
  then show ?thesis by (simp add: example_plugins) (simp add: example_issue_def)
qed

text \<open>
  Claim C4, amended. For every run whose two inputs are set, whatever the event: when a
  step of the chain of the board is rejected (the query of the project for a link that
  matches, the query of the issue in the project, the query of the item, the mutation),
  the run ends with an error, after the calls of the board only; it reads no label and
  adds none.
\<close>

theorem board_failure_propagates:
  assumes "project_automation_token env \<noteq> []" and "project_board env \<noteq> []"
    and "(rx_match project_regex (project_board env) \<noteq> None \<and> getProject_response env = Inl e)
         \<or> getProjectNumber_response env = Inl e
         \<or> getIssueProjectDetails_response env = Inl e
         \<or> updateField_response env = Inl e"
  shows "(\<exists>e'. triageIssues env p = (Inl e', snd (triage_board env p)))
       \<and> added_labels (snd (triageIssues env p)) = []
       \<and> (\<forall>owner repo number. GetLabels owner repo number \<notin> set (snd (triageIssues env p)))"
proof -
  obtain e' where e': "fst (triage_board env p) = Inl e'"
    using triage_board_returns[of env p] assms(3) by (cases "fst (triage_board env p)") auto
  have r: "triageIssues env p = (Inl e', snd (triage_board env p))"
    using assms(1,2) e' by (rule run_after_board_failure)
  have "GetLabels owner repo number \<notin> set (snd (triage_board env p))" for owner repo number
    by (auto dest: triage_board_events)
  with r show ?thesis by (simp add: triage_board_adds_no_label)
qed

text \<open>
  The example, with the query of the issue in the project rejected.
\<close>

theorem board_failure_propagates_witness:
  "fst (triageIssues ((example_env (Some (JStr (js ''PVT_1''))) example_priority_field [js ''[Type] Bug''])
        \<lparr>getProjectNumber_response := Inl (RemoteError (js ''Not found''))\<rparr>) example_issue)
     \<noteq> Inr ()
   \<and> added_labels (snd (triageIssues ((example_env (Some (JStr (js ''PVT_1''))) example_priority_field [js ''[Type] Bug''])
        \<lparr>getProjectNumber_response := Inl (RemoteError (js ''Not found''))\<rparr>) example_issue)) = []"
proof -
  let ?env = "(example_env (Some (JStr (js ''PVT_1''))) example_priority_field [js ''[Type] Bug''])
        \<lparr>getProjectNumber_response := Inl (RemoteError (js ''Not found''))\<rparr>"
  have c: "project_automation_token ?env \<noteq> []" "project_board ?env \<noteq> []"
    by (simp_all add: example_env_def js_def)
  have f: "getProjectNumber_response ?env = Inl (RemoteError (js ''Not found''))" by simp
  from board_failure_propagates[OF c, of "RemoteError (js ''Not found'')" example_issue] f
  show ?thesis by auto
qed

text \<open>
  Claim C5. A run adds no priority label to an issue whose labels, as fetched, have one
  whose name starts with \<open>[Pri]\<close> (the name of a label is one line). A label delivered
  in the event counts when the event is \<open>labeled\<close>, and such a run adds no label at
  all. When a run does add a priority label, the event is \<open>opened\<close> or \<open>reopened\<close>,
  the issue had no priority label and has the label \<open>[Type] Bug\<close>, and the run adds
  exactly one priority label, the one of the priority found in the body.
\<close>

theorem priority_label_only_when_missing:
  "(getLabels_first env = Inr labels
      \<and> (\<exists>l\<in>set labels. prefix (js ''[Pri]'') l \<and> (\<forall>c\<in>set l. \<not> line_terminator c))
      \<longrightarrow> added_priority_labels (snd (triageIssues env p)) = [])
   \<and> (action p = js ''labeled'' \<longrightarrow> added_labels (snd (triageIssues env p)) = [])
   \<and> (added_priority_labels (snd (triageIssues env p)) \<noteq> [] \<longrightarrow>
        added_priority_labels (snd (triageIssues env p)) = [js ''[Pri] '' @ findPriority (issue_body p)]
        \<and> (action p = js ''opened'' \<or> action p = js ''reopened'')
        \<and> (\<exists>labels. getLabels_first env = Inr labels \<and> filter is_priority_label labels = [])
        \<and> (\<exists>labels. getLabels_second env = Inr labels \<and> js ''[Type] Bug'' \<in> set labels))"
proof -
  have run: "added_priority_labels (snd (triageIssues env p)) = []
             \<or> added_priority_labels (snd (triageIssues env p)) =
                 added_priority_labels (snd (triage_labels env p))"
    using added_by_run[of env p] by (auto simp: added_priority_labels_def)
  have third: "added_priority_labels (snd (triageIssues env p)) = [js ''[Pri] '' @ findPriority (issue_body p)]
        \<and> (action p = js ''opened'' \<or> action p = js ''reopened'')
        \<and> (\<exists>labels. getLabels_first env = Inr labels \<and> filter is_priority_label labels = [])
        \<and> (\<exists>labels. getLabels_second env = Inr labels \<and> js ''[Type] Bug'' \<in> set labels)"
    if ne: "added_priority_labels (snd (triageIssues env p)) \<noteq> []"
  proof -
    from run ne have eq: "added_priority_labels (snd (triageIssues env p)) =
                 added_priority_labels (snd (triage_labels env p))" by auto
    with ne have "added_priority_labels (snd (triage_labels env p)) \<noteq> []" by simp
    from apl_labels_phase[OF this] eq show ?thesis by simp
  qed
  have first: "added_priority_labels (snd (triageIssues env p)) = []"
    if l: "getLabels_first env = Inr labels"
      and ex: "\<exists>l\<in>set labels. prefix (js ''[Pri]'') l \<and> (\<forall>c\<in>set l. \<not> line_terminator c)"
  proof (rule ccontr)
    assume "added_priority_labels (snd (triageIssues env p)) \<noteq> []"
    from third[OF this] l have none: "filter is_priority_label labels = []" by auto
    from ex obtain x where x: "x \<in> set labels" "prefix (js ''[Pri]'') x" "\<forall>c\<in>set x. \<not> line_terminator c"
      by blast
    then have "is_priority_label x"
      unfolding is_priority_label_iff by (auto dest: in_set_dropD)
    with x(1) none show False by (auto simp: filter_empty_conv)
  qed
  have second: "added_labels (snd (triageIssues env p)) = []" if "action p = js ''labeled''"
    using added_by_run[of env p] labels_added_when_labeled[OF that, of env] by auto
  from first second third show ?thesis by blast
qed

text \<open>
  The example with \<open>projectNodeId\<close> defined, on a bug that has a priority label, and on a
  bug that has none.
\<close>

theorem priority_label_only_when_missing_witness:
  "getLabels_first (example_env (Some (JStr (js ''PVT_1''))) example_priority_field
       [js ''[Pri] High'', js ''[Type] Bug'']) = Inr [js ''[Pri] High'', js ''[Type] Bug'']
   \<and> added_labels (snd (triageIssues (example_env (Some (JStr (js ''PVT_1''))) example_priority_field
       [js ''[Pri] High'', js ''[Type] Bug'']) example_issue)) = [js ''[Plugin] Alpha'', js ''[Plugin] Beta'']
   \<and> added_priority_labels (snd (triageIssues (example_env (Some (JStr (js ''PVT_1''))) example_priority_field
       [js ''[Pri] High'', js ''[Type] Bug'']) example_issue)) = []
   \<and> added_labels (snd (triageIssues (example_env (Some (JStr (js ''PVT_1''))) example_priority_field
       [js ''[Type] Bug'']) example_issue)) = [js ''[Plugin] Alpha'', js ''[Plugin] Beta'', js ''[Pri] BLOCKER'']
   \<and> added_priority_labels (snd (triageIssues (example_env (Some (JStr (js ''PVT_1''))) example_priority_field
       [js ''[Type] Bug'']) example_issue)) = [js ''[Pri] '' @ findPriority (issue_body example_issue)]"
proof -
  let ?e1 = "example_env (Some (JStr (js ''PVT_1''))) example_priority_field [js ''[Pri] High'', js ''[Type] Bug'']"
  let ?e2 = "example_env (Some (JStr (js ''PVT_1''))) example_priority_field [js ''[Type] Bug'']"
  have l: "getLabels_first ?e1 = Inr [js ''[Pri] High'', js ''[Type] Bug'']"
    by (simp add: example_env_def)
  have h: "\<exists>l\<in>set [js ''[Pri] High'', js ''[Type] Bug''].
             prefix (js ''[Pri]'') l \<and> (\<forall>c\<in>set l. \<not> line_terminator c)"
    by (simp add: js_def line_terminator_def)
  have p1: "is_priority_label (js ''[Pri] High'')" "\<not> is_priority_label (js ''[Type] Bug'')"
    unfolding is_priority_label_iff by (simp_all add: js_def line_terminator_def)
  have a1: "added_labels (snd (triageIssues ?e1 example_issue)) = [js ''[Plugin] Alpha'', js ''[Plugin] Beta'']"
    by (simp add: example_run_bound p1)
  have a2: "added_labels (snd (triageIssues ?e2 example_issue)) =
              [js ''[Plugin] Alpha'', js ''[Plugin] Beta'', js ''[Pri] BLOCKER'']"
    by (simp add: example_run_bound p1)
  have "added_priority_labels (snd (triageIssues ?e2 example_issue)) \<noteq> []"
    unfolding added_priority_labels_def a2 by (simp add: js_def)
  with priority_label_only_when_missing[of ?e1 "[js ''[Pri] High'', js ''[Type] Bug'']" example_issue]
       priority_label_only_when_missing[of ?e2 "[]" example_issue] l h a1 a2
  show ?thesis by blast
qed

text \<open>
  The example issue has the priority \<open>BLOCKER\<close>. With \<open>projectNodeId\<close> undefined
  the run throws a \<open>ReferenceError\<close> before the update of the field. With
  \<open>projectNodeId\<close> defined, the option of the update is \<open>o4\<close>, the option named
  \<open>Low\<close>, the constant \<open>priorityText\<close>.
\<close>

lemma example_option_written:
  "findPriority (issue_body example_issue) = js ''BLOCKER''
   \<and> triageIssues (example_env None example_priority_field [js ''[Type] Bug'']) example_issue
     = (Inl ReferenceError,
        [GetProject (js ''acme'') (Exact 11), GetProjectNumber (js ''I_1'') 11,
         GetIssueProjectDetails (js ''I_1'')])
   \<and> field_updates (snd (triageIssues
        (example_env (Some (JStr (js ''PVT_1''))) example_priority_field [js ''[Type] Bug''])
        example_issue))
     = [UpdateField (JStr (js ''F1'')) (js ''PVTI_lADOCGvWfc4AUwHEzgI4tDo'') (JStr (js ''PVT_1''))
          (JStr (js ''o4''))]"
  by (simp add: example_priority example_run_unbound example_run_bound)

text \<open>
  Claim C3. A link without \<open>/projects/N\<close> does not match. \<open>getProjectDetails\<close> answers
  \<open>{}\<close>; the run goes on with the two queries about the issue, then throws a
  \<open>TypeError\<close> where it destructures the missing \<open>priority\<close>, whether \<open>projectNodeId\<close>
  is defined or not. No label is read or added.
\<close>

theorem invalid_link_stops_run:
  "rx_match project_regex (js ''https://github.com/orgs/acme'') = None
   \<and> triageIssues ((example_env None example_priority_field [js ''[Type] Bug''])
        \<lparr>project_board := js ''https://github.com/orgs/acme''\<rparr>) example_issue
     = (Inl TypeError, [GetProjectNumber (js ''I_1'') 11, GetIssueProjectDetails (js ''I_1'')])
   \<and> triageIssues ((example_env (Some (JStr (js ''PVT_1''))) example_priority_field [js ''[Type] Bug''])
        \<lparr>project_board := js ''https://github.com/orgs/acme''\<rparr>) example_issue
     = (Inl TypeError, [GetProjectNumber (js ''I_1'') 11, GetIssueProjectDetails (js ''I_1'')])"
proof -
  have r: "triageIssues ((example_env g example_priority_field [js ''[Type] Bug''])
        \<lparr>project_board := js ''https://github.com/orgs/acme''\<rparr>) example_issue
     = (Inl TypeError, [GetProjectNumber (js ''I_1'') 11, GetIssueProjectDetails (js ''I_1'')])" for g
  proof -
    let ?env = "(example_env g example_priority_field [js ''[Type] Bug''])
        \<lparr>project_board := js ''https://github.com/orgs/acme''\<rparr>"
    have c: "project_automation_token ?env \<noteq> []" "project_board ?env \<noteq> []"
      by (simp_all add: example_env_def js_def)
    show ?thesis
      using run_after_board_failure[OF c, of example_issue TypeError]
      by (simp add: example_board_invalid_link)
  qed
  show ?thesis by (simp add: invalid_example_link r)
qed

text \<open>
  Claim C6. On a board whose \<open>Priority\<close> field has no option named \<open>Low\<close>, the run
  makes no update, and it ends with an error: the \<open>ReferenceError\<close> of the undefined
  \<open>projectNodeId\<close>, and, were it defined, the \<open>TypeError\<close> of reading \<open>id\<close> of the
  option that \<open>find\<close> did not find. No label is read or added.
\<close>

theorem missing_option_stops_run:
  "triageIssues (example_env None example_field_without_low [js ''[Type] Bug'']) example_issue
     = (Inl ReferenceError,
        [GetProject (js ''acme'') (Exact 11), GetProjectNumber (js ''I_1'') 11,
         GetIssueProjectDetails (js ''I_1'')])
   \<and> triageIssues (example_env (Some (JStr (js ''PVT_1''))) example_field_without_low [js ''[Type] Bug''])
        example_issue
     = (Inl TypeError,
        [GetProject (js ''acme'') (Exact 11), GetProjectNumber (js ''I_1'') 11,
         GetIssueProjectDetails (js ''I_1'')])"
proof -
  have r: "triageIssues (example_env g example_field_without_low [js ''[Type] Bug'']) example_issue
     = ((case g of None \<Rightarrow> Inl ReferenceError | Some v \<Rightarrow> Inl TypeError),
        [GetProject (js ''acme'') (Exact 11), GetProjectNumber (js ''I_1'') 11,
         GetIssueProjectDetails (js ''I_1'')])" for g
  proof -
    let ?env = "example_env g example_field_without_low [js ''[Type] Bug'']"
    have c: "project_automation_token ?env \<noteq> []" "project_board ?env \<noteq> []"
      by (simp_all add: example_env_def js_def)
    show ?thesis
      using run_after_board_failure[OF c, of example_issue
              "case g of None \<Rightarrow> ReferenceError | Some v \<Rightarrow> TypeError"]
      by (cases g) (simp_all add: example_board_without_low)
  qed
  show ?thesis by (simp add: r)
qed

end
